theory Spec2Isabelle
  imports Main "HOL-Library.Word"
begin

unbundle bit_operations_syntax

section \<open>Data model\<close>

text \<open>
  The repository holds three revisions of the controller:
  \<^item> \<^verbatim>\<open>src/controller/controller.go\<close>, lines 1-382: the composite form with the
    \<^verbatim>\<open>StripURI\<close> field. Its functions keep the names of the source.
  \<^item> \<^verbatim>\<open>src/controller/controller.go\<close>, lines 383-693: an earlier composite form whose
    upstream URL is taken from the rule. Its functions carry the suffix \<open>_v2\<close> where they
    differ from the first revision.
  \<^item> \<^verbatim>\<open>src/unnamed/part_001\<close>: the simple form (one API per ingress). Its functions carry
    the suffix \<open>_v1\<close>.
  The Kubernetes types (\<^verbatim>\<open>v1beta1.Ingress\<close> and its parts) and the gateway client
  types (\<^verbatim>\<open>kong.Api\<close>, \<^verbatim>\<open>kong.ApiRequest\<close>) are imported by the source; the
  records below carry the fields the controller reads or writes. A Go pointer that may
  be nil is an \<open>option\<close>.
\<close>

datatype IntOrString = FromInt int | FromString string

record IngressBackend =
  ServiceName :: string
  ServicePort :: IntOrString

record HTTPIngressPath =
  Path :: string
  Backend :: IngressBackend

record HTTPIngressRuleValue =
  Paths :: "HTTPIngressPath list"

record IngressRule =
  Host :: string
  HTTP :: "HTTPIngressRuleValue option"

record IngressSpec =
  SpecBackend :: "IngressBackend option"
  Rules :: "IngressRule list"

record ObjectMeta =
  Name :: string
  Namespace :: string
  Annotations :: "string \<rightharpoonup> string"

record Ingress =
  Meta :: ObjectMeta
  Spec :: IngressSpec

text \<open>
  \<^verbatim>\<open>kong.Api\<close>, the record the gateway returns. \<^verbatim>\<open>StripURI\<close> is a \<^verbatim>\<open>*bool\<close>;
  \<^verbatim>\<open>Hosts\<close> and \<^verbatim>\<open>Uris\<close> are slices, and a nil slice has length 0 like the empty one.
\<close>

record Api =
  aID :: string
  aName :: string
  aUpstreamURL :: string
  aHosts :: "string list"
  aUris :: "string list"
  aPreserveHost :: bool
  aStripURI :: "bool option"

text \<open>
  \<^verbatim>\<open>kong.ApiRequest\<close>, the body of a write. A field left out of a Go struct literal
  holds its zero value and is omitted from the payload.
\<close>

record ApiRequest =
  rID :: string
  rName :: string
  rUpstreamURL :: string
  rHosts :: string
  rUris :: string
  rPreserveHost :: bool
  rStripURI :: "bool option"

definition emptyRequest :: ApiRequest where
  "emptyRequest = \<lparr>rID = [], rName = [], rUpstreamURL = [], rHosts = [], rUris = [],
     rPreserveHost = False, rStripURI = None\<rparr>"

text \<open>
  Go \<^verbatim>\<open>error\<close> values. \<open>Wrapf e msg\<close> is \<^verbatim>\<open>errors.Wrapf(e, msg)\<close>, which keeps its
  cause; \<open>New msg\<close> is \<^verbatim>\<open>errors.New(msg)\<close>, also used for an error of the cluster client.
  \<open>NoResponse\<close> and \<open>HTTPStatus c\<close> are the errors of the gateway client: a request that
  got no response, and a response with the non-2xx status \<open>c\<close>.
\<close>

datatype error = NoResponse | HTTPStatus nat | New string | Wrapf error string

text \<open>What a function returning \<^verbatim>\<open>error\<close> does: return nil, return an error, or panic.\<close>

datatype outcome = Nil | Error error | Panic

definition squote :: "string \<Rightarrow> string" where
  "squote s = CHR 0x27 # s @ [CHR 0x27]"

section \<open>Formatting and hashing\<close>

text \<open>
  \<^verbatim>\<open>strconv.FormatUint(n, base)\<close>: the digits of \<open>n\<close> in the base, lowercase, without
  leading zeros. The source calls it with base 16, and with base 10 through
  \<^verbatim>\<open>strconv.Itoa\<close>; the test \<open>b < 2\<close> only makes the recursion total.
\<close>

definition digits :: string where
  "digits = ''0123456789abcdefghijklmnopqrstuvwxyz''"

fun FormatUint :: "nat \<Rightarrow> nat \<Rightarrow> string" where
  "FormatUint n b =
     (if b < 2 \<or> n < b then [digits ! n]
      else FormatUint (n div b) b @ [digits ! (n mod b)])"

declare FormatUint.simps [simp del]

text \<open>
  \<^verbatim>\<open>strconv.Itoa\<close> and \<^verbatim>\<open>IntOrString.String()\<close>, which returns the string of a
  string-typed port and the decimal digits of an integer one.
\<close>

definition Itoa :: "int \<Rightarrow> string" where
  "Itoa i = (if i < 0 then CHR ''-'' # FormatUint (nat (- i)) 10 else FormatUint (nat i) 10)"

fun IntOrString_String :: "IntOrString \<Rightarrow> string" where
  "IntOrString_String (FromString s) = s"
| "IntOrString_String (FromInt i) = Itoa i"

text \<open>
  \<^verbatim>\<open>adler32.Checksum\<close> (RFC 1950): two sums modulo 65521 over the bytes, starting from
  1 and 0, packed into a \<^verbatim>\<open>uint32\<close> as \<^verbatim>\<open>s2<<16 | s1\<close>.
\<close>

fun adler32_update :: "nat \<times> nat \<Rightarrow> string \<Rightarrow> nat \<times> nat" where
  "adler32_update (s1, s2) [] = (s1, s2)"
| "adler32_update (s1, s2) (c # cs) =
     (let s1' = (s1 + of_char c) mod 65521;
          s2' = (s2 + s1') mod 65521
      in adler32_update (s1', s2') cs)"

definition Checksum :: "string \<Rightarrow> 32 word" where
  "Checksum input =
     (case adler32_update (1, 0) input of
        (s1, s2) \<Rightarrow> push_bit 16 (word_of_nat s2) OR word_of_nat s1)"

definition hashString :: "string \<Rightarrow> string" where
  "hashString input = FormatUint (unat (Checksum input)) 16"

section \<open>Identity and projection\<close>

definition ingressClassAnnotationName :: string where
  "ingressClassAnnotationName = ''kubernetes.io/ingress.class''"

definition kongIngressControllerClass :: string where
  "kongIngressControllerClass = ''kong''"

text \<open>The two-value map read \<^verbatim>\<open>val, ok := m[key]\<close>: a missing key gives the zero value.\<close>

definition lookup2 :: "(string \<rightharpoonup> string) \<Rightarrow> string \<Rightarrow> string \<times> bool" where
  "lookup2 m key = (case m key of None \<Rightarrow> ([], False) | Some v \<Rightarrow> (v, True))"

definition ingressIsFairGame :: "Ingress \<Rightarrow> bool" where
  "ingressIsFairGame ingress =
     (case lookup2 (Annotations (Meta ingress)) ingressClassAnnotationName of
        (val, ok) \<Rightarrow> ok \<and> val = kongIngressControllerClass \<or> \<not> ok)"

definition getQualifiedAPIName :: "string \<Rightarrow> string \<Rightarrow> string \<Rightarrow> string" where
  "getQualifiedAPIName host path namespace = host @ ''~'' @ hashString path @ ''~'' @ namespace"

definition getUpstreamURL :: "HTTPIngressPath \<Rightarrow> string \<Rightarrow> string" where
  "getUpstreamURL ingressPath namespace =
     (let backend = Backend ingressPath
      in ''http://'' @ ServiceName backend @ ''.'' @ namespace @ '':''
           @ IntOrString_String (ServicePort backend))"

definition apiRequestFromIngress :: "IngressRule \<Rightarrow> HTTPIngressPath \<Rightarrow> string \<Rightarrow> ApiRequest" where
  "apiRequestFromIngress ingressRule ingressPath namespace =
     (let apiName = getQualifiedAPIName (Host ingressRule) (Path ingressPath) namespace;
          upstreamURL = getUpstreamURL ingressPath namespace;
          stripURI = False
      in emptyRequest\<lparr>rUpstreamURL := upstreamURL, rName := apiName,
           rHosts := Host ingressRule, rUris := Path ingressPath,
           rPreserveHost := True, rStripURI := Some stripURI\<rparr>)"

definition validateIngressSupported :: "Ingress \<Rightarrow> outcome" where
  "validateIngressSupported ingress =
     (if SpecBackend (Spec ingress) \<noteq> None
      then Error (New ''Single Service Ingress types are not currently supported'')
      else Nil)"

subsection \<open>The earlier composite revision (controller.go, lines 383-693)\<close>

text \<open>
  \<^verbatim>\<open>getIngressRuleBackend\<close> reads \<^verbatim>\<open>rule.HTTP.Paths[0]\<close>: a nil \<^verbatim>\<open>HTTP\<close> or an empty
  path list panics, which is \<open>None\<close> here.
\<close>

definition getIngressRuleBackend :: "IngressRule \<Rightarrow> IngressBackend option" where
  "getIngressRuleBackend rule =
     (case HTTP rule of
        None \<Rightarrow> None
      | Some h \<Rightarrow> (case Paths h of [] \<Rightarrow> None | p # _ \<Rightarrow> Some (Backend p)))"

definition getUpstreamURL_v2 :: "IngressRule \<Rightarrow> string \<Rightarrow> string option" where
  "getUpstreamURL_v2 ingressRule namespace =
     (case getIngressRuleBackend ingressRule of
        None \<Rightarrow> None
      | Some backend \<Rightarrow>
          Some (''http://'' @ ServiceName backend @ ''.'' @ namespace @ '':''
                  @ IntOrString_String (ServicePort backend)))"

definition apiRequestFromIngress_v2 ::
    "IngressRule \<Rightarrow> HTTPIngressPath \<Rightarrow> string \<Rightarrow> ApiRequest option" where
  "apiRequestFromIngress_v2 ingressRule ingressPath namespace =
     (let apiName = getQualifiedAPIName (Host ingressRule) (Path ingressPath) namespace
      in case getUpstreamURL_v2 ingressRule namespace of
           None \<Rightarrow> None
         | Some upstreamURL \<Rightarrow>
             Some (emptyRequest\<lparr>rUpstreamURL := upstreamURL, rName := apiName,
                     rHosts := Host ingressRule, rUris := Path ingressPath,
                     rPreserveHost := True\<rparr>))"

subsection \<open>The simple form (part_001)\<close>

definition getQualifiedName_v1 :: "Ingress \<Rightarrow> string" where
  "getQualifiedName_v1 ingress = Name (Meta ingress) @ ''.'' @ Namespace (Meta ingress)"

text \<open>
  \<^verbatim>\<open>getIngressBackend\<close> reads \<^verbatim>\<open>ingress.Spec.Rules[0].HTTP.Paths[0]\<close>; an index out of
  range or a nil \<^verbatim>\<open>HTTP\<close> panics, which is \<open>None\<close> here.
\<close>

definition getIngressBackend_v1 :: "Ingress \<Rightarrow> IngressBackend option" where
  "getIngressBackend_v1 ingress =
     (case Rules (Spec ingress) of
        [] \<Rightarrow> None
      | r # _ \<Rightarrow>
          (case HTTP r of
             None \<Rightarrow> None
           | Some h \<Rightarrow> (case Paths h of [] \<Rightarrow> None | p # _ \<Rightarrow> Some (Backend p))))"

definition getUpstreamURL_v1 :: "Ingress \<Rightarrow> string option" where
  "getUpstreamURL_v1 ingress =
     (case getIngressBackend_v1 ingress of
        None \<Rightarrow> None
      | Some backend \<Rightarrow>
          Some (''http://'' @ ServiceName backend @ ''.'' @ Namespace (Meta ingress) @ '':''
                  @ IntOrString_String (ServicePort backend)))"

text \<open>\<^verbatim>\<open>ingress.Spec.Rules[0].Host\<close>, \<open>None\<close> for the index out of range.\<close>

definition firstRuleHost_v1 :: "Ingress \<Rightarrow> string option" where
  "firstRuleHost_v1 ingress = (case Rules (Spec ingress) of [] \<Rightarrow> None | r # _ \<Rightarrow> Some (Host r))"

definition apiRequestFromIngress_v1 :: "Ingress \<Rightarrow> ApiRequest option" where
  "apiRequestFromIngress_v1 ingress =
     (let serviceName = getQualifiedName_v1 ingress
      in case getUpstreamURL_v1 ingress of
           None \<Rightarrow> None
         | Some upstreamURL \<Rightarrow>
             (case firstRuleHost_v1 ingress of
                None \<Rightarrow> None
              | Some host \<Rightarrow>
                  Some (emptyRequest\<lparr>rUpstreamURL := upstreamURL, rName := serviceName,
                          rHosts := host, rPreserveHost := True\<rparr>)))"

definition validateIngressSupported_v1 :: "Ingress \<Rightarrow> outcome" where
  "validateIngressSupported_v1 ingress =
     (if SpecBackend (Spec ingress) \<noteq> None
      then Error (New ''Single Service Ingress types are not currently supported'')
      else if length (Rules (Spec ingress)) \<noteq> 1
      then Error (New ''Only ingresses with a single rule are currently supported'')
      else (case HTTP (Rules (Spec ingress) ! 0) of
              None \<Rightarrow> Panic
            | Some h \<Rightarrow>
                if length (Paths h) \<noteq> 1 \<or> Path (Paths h ! 0) \<noteq> ''/''
                then Error (New ''Only ingresses with a single root path are currently supported'')
                else Nil))"

section \<open>The gateway\<close>

text \<open>
  The gateway and its admin client are outside the repository. The state below is the
  gateway's API store, the requests the controller has issued so far, and a schedule of
  failures: \<open>faults k i = Some e\<close> makes the request number \<open>i\<close> (counted from 0) fail
  with \<open>e\<close> without touching the store.
\<close>

datatype request =
  GetAll | Get string | Post ApiRequest | Patch ApiRequest | Delete string

record kong =
  apis :: "Api list"
  sent :: "request list"
  faults :: "nat \<Rightarrow> error option"

definition issue :: "request \<Rightarrow> kong \<Rightarrow> kong" where
  "issue r k = k\<lparr>sent := sent k @ [r]\<rparr>"

definition fault_now :: "kong \<Rightarrow> error option" where
  "fault_now k = faults k (length (sent k))"

text \<open>The \<^verbatim>\<open>*http.Response\<close> that comes with an error: nil unless the gateway answered.\<close>

fun resp_of :: "error \<Rightarrow> nat option" where
  "resp_of (HTTPStatus c) = Some c"
| "resp_of _ = None"

text \<open>
  Modelled from the spec: the admin operations of section 6, which the source calls
  through the imported client. \<^verbatim>\<open>GET /apis\<close> returns the complete list;
  \<^verbatim>\<open>GET /apis/{name}\<close> returns the record or 404; \<^verbatim>\<open>POST /apis\<close> creates the record
  (names are unique, so an existing name is a 409; the id the gateway assigns is
  taken to be the name); \<^verbatim>\<open>PATCH\<close> updates the fields the payload carries on the
  record with the payload's id, or 404; \<^verbatim>\<open>DELETE /apis/{name}\<close> removes the record, or 404.
\<close>

definition Apis_GetAll :: "kong \<Rightarrow> (error + Api list) \<times> kong" where
  "Apis_GetAll k =
     (case fault_now k of
        Some e \<Rightarrow> (Inl e, issue GetAll k)
      | None \<Rightarrow> (Inr (apis k), issue GetAll k))"

definition Apis_Get :: "kong \<Rightarrow> string \<Rightarrow> (Api option \<times> nat option \<times> error option) \<times> kong" where
  "Apis_Get k name =
     (case fault_now k of
        Some e \<Rightarrow> ((None, resp_of e, Some e), issue (Get name) k)
      | None \<Rightarrow>
          (case find (\<lambda>a. aName a = name) (apis k) of
             Some a \<Rightarrow> ((Some a, Some 200, None), issue (Get name) k)
           | None \<Rightarrow> ((None, Some 404, Some (HTTPStatus 404)), issue (Get name) k)))"

definition created :: "ApiRequest \<Rightarrow> Api" where
  "created req =
     \<lparr>aID = rName req, aName = rName req, aUpstreamURL = rUpstreamURL req,
      aHosts = (if rHosts req = [] then [] else [rHosts req]),
      aUris = (if rUris req = [] then [] else [rUris req]),
      aPreserveHost = rPreserveHost req, aStripURI = rStripURI req\<rparr>"

definition patched :: "ApiRequest \<Rightarrow> Api \<Rightarrow> Api" where
  "patched req a =
     a\<lparr>aUpstreamURL := (if rUpstreamURL req = [] then aUpstreamURL a else rUpstreamURL req),
       aHosts := (if rHosts req = [] then aHosts a else [rHosts req]),
       aUris := (if rUris req = [] then aUris a else [rUris req]),
       aPreserveHost := (if rPreserveHost req then True else aPreserveHost a),
       aStripURI := (case rStripURI req of None \<Rightarrow> aStripURI a | Some b \<Rightarrow> Some b)\<rparr>"

definition Apis_Post :: "kong \<Rightarrow> ApiRequest \<Rightarrow> error option \<times> kong" where
  "Apis_Post k req =
     (case fault_now k of
        Some e \<Rightarrow> (Some e, issue (Post req) k)
      | None \<Rightarrow>
          if list_ex (\<lambda>a. aName a = rName req) (apis k)
          then (Some (HTTPStatus 409), issue (Post req) k)
          else (None, issue (Post req) (k\<lparr>apis := apis k @ [created req]\<rparr>)))"

definition Apis_Patch :: "kong \<Rightarrow> ApiRequest \<Rightarrow> error option \<times> kong" where
  "Apis_Patch k req =
     (case fault_now k of
        Some e \<Rightarrow> (Some e, issue (Patch req) k)
      | None \<Rightarrow>
          if list_ex (\<lambda>a. aID a = rID req) (apis k)
          then (None, issue (Patch req)
                  (k\<lparr>apis := map (\<lambda>a. if aID a = rID req then patched req a else a) (apis k)\<rparr>))
          else (Some (HTTPStatus 404), issue (Patch req) k))"

definition Apis_Delete :: "kong \<Rightarrow> string \<Rightarrow> error option \<times> kong" where
  "Apis_Delete k name =
     (case fault_now k of
        Some e \<Rightarrow> (Some e, issue (Delete name) k)
      | None \<Rightarrow>
          if list_ex (\<lambda>a. aName a = name) (apis k)
          then (None, issue (Delete name) (k\<lparr>apis := filter (\<lambda>a. aName a \<noteq> name) (apis k)\<rparr>))
          else (Some (HTTPStatus 404), issue (Delete name) k))"

section \<open>Deleting and reconciling\<close>

definition deleteKongAPI :: "kong \<Rightarrow> string \<Rightarrow> error option \<times> kong" where
  "deleteKongAPI k apiName =
     (case Apis_Get k apiName of
        ((_, _, Some err), k1) \<Rightarrow>
          (Some (Wrapf err (''Failed to retrieve kong api '' @ squote apiName)), k1)
      | ((_, _, None), k1) \<Rightarrow>
          (case Apis_Delete k1 apiName of
             (Some err, k2) \<Rightarrow>
               (Some (Wrapf err (''Failed to delete kong api '' @ squote apiName)), k2)
           | (None, k2) \<Rightarrow> (None, k2)))"

text \<open>
  One drift check of \<^verbatim>\<open>reconcileAPI\<close>: when the field differs, PATCH and return the
  wrapped error if the PATCH fails; otherwise go on with the rest of the function.
\<close>

definition patchIf ::
    "bool \<Rightarrow> ApiRequest \<Rightarrow> string \<Rightarrow> (kong \<Rightarrow> outcome \<times> kong) \<Rightarrow> kong \<Rightarrow> outcome \<times> kong" where
  "patchIf drift req apiName rest k =
     (if drift
      then (case Apis_Patch k req of
              (Some err, k') \<Rightarrow> (Error (Wrapf err (''Failed to patch API '' @ squote apiName)), k')
            | (None, k') \<Rightarrow> rest k')
      else rest k)"

definition returnNil :: "kong \<Rightarrow> outcome \<times> kong" where
  "returnNil k = (Nil, k)"

text \<open>
  The else-branch of \<^verbatim>\<open>reconcileAPI\<close> (controller.go, lines 242-294): the five drift
  checks in the order of the source. \<^verbatim>\<open>*(api.StripURI)\<close> dereferences the pointer
  without a nil check.
\<close>

definition patchDrift ::
    "Api \<Rightarrow> IngressRule \<Rightarrow> HTTPIngressPath \<Rightarrow> string \<Rightarrow> string \<Rightarrow> kong \<Rightarrow> outcome \<times> kong" where
  "patchDrift api ingressRule ingressPath namespace apiName =
     (let correctUpstreamURL = getUpstreamURL ingressPath namespace;
          correctHosts = Host ingressRule
      in patchIf (aUpstreamURL api \<noteq> correctUpstreamURL)
           (emptyRequest\<lparr>rID := aID api, rUpstreamURL := correctUpstreamURL\<rparr>) apiName
        (patchIf (length (aHosts api) \<noteq> 1 \<or> aHosts api ! 0 \<noteq> correctHosts)
           (emptyRequest\<lparr>rID := aID api, rHosts := correctHosts\<rparr>) apiName
        (patchIf (aPreserveHost api \<noteq> True)
           (emptyRequest\<lparr>rID := aID api, rPreserveHost := True\<rparr>) apiName
        (\<lambda>k. case aStripURI api of
               None \<Rightarrow> (Panic, k)
             | Some stripped \<Rightarrow>
                 patchIf (stripped \<noteq> False)
                   (emptyRequest\<lparr>rID := aID api, rStripURI := Some False\<rparr>) apiName
                 (patchIf (aUris api = [] \<or> aUris api ! 0 \<noteq> Path ingressPath)
                   (emptyRequest\<lparr>rID := aID api, rUris := Path ingressPath\<rparr>) apiName
                  returnNil) k))))"

text \<open>
  \<^verbatim>\<open>reconcileAPI\<close> (controller.go, lines 226-298). \<^verbatim>\<open>resp.StatusCode\<close> on a nil
  response and a field of a nil \<^verbatim>\<open>api\<close> panic.
\<close>

definition reconcileAPI ::
    "kong \<Rightarrow> IngressRule \<Rightarrow> HTTPIngressPath \<Rightarrow> string \<Rightarrow> outcome \<times> kong" where
  "reconcileAPI k ingressRule ingressPath namespace =
     (let apiName = getQualifiedAPIName (Host ingressRule) (Path ingressPath) namespace
      in case Apis_Get k apiName of
           ((api, resp, err), k1) \<Rightarrow>
             (let rest =
                (case resp of
                   None \<Rightarrow> (Panic, k1)
                 | Some code \<Rightarrow>
                     if code = 404
                     then (case Apis_Post k1 (apiRequestFromIngress ingressRule ingressPath namespace) of
                             (Some e, k2) \<Rightarrow>
                               (Error (Wrapf e (''Failed to create API '' @ squote apiName)), k2)
                           | (None, k2) \<Rightarrow> (Nil, k2))
                     else (case api of
                             None \<Rightarrow> (Panic, k1)
                           | Some a \<Rightarrow> patchDrift a ingressRule ingressPath namespace apiName k1))
              in case err of
                   Some e \<Rightarrow>
                     if resp = None \<or> resp \<noteq> Some 404
                     then (Error (Wrapf e (''Failed to fetch API '' @ squote apiName)), k1)
                     else rest
                 | None \<Rightarrow> rest))"

subsection \<open>The earlier composite revision\<close>

text \<open>
  The else-branch of \<^verbatim>\<open>reconcileAPI\<close> (controller.go, lines 562-603):
  \<^verbatim>\<open>getUpstreamURL(ingressRule, namespace)\<close> and four drift checks, none on
  \<^verbatim>\<open>StripURI\<close>.
\<close>

definition patchDrift_v2 ::
    "Api \<Rightarrow> IngressRule \<Rightarrow> HTTPIngressPath \<Rightarrow> string \<Rightarrow> string \<Rightarrow> kong \<Rightarrow> outcome \<times> kong" where
  "patchDrift_v2 api ingressRule ingressPath namespace apiName k =
     (case getUpstreamURL_v2 ingressRule namespace of
        None \<Rightarrow> (Panic, k)
      | Some correctUpstreamURL \<Rightarrow>
          (let correctHosts = Host ingressRule
           in patchIf (aUpstreamURL api \<noteq> correctUpstreamURL)
                (emptyRequest\<lparr>rID := aID api, rUpstreamURL := correctUpstreamURL\<rparr>) apiName
             (patchIf (length (aHosts api) \<noteq> 1 \<or> aHosts api ! 0 \<noteq> correctHosts)
                (emptyRequest\<lparr>rID := aID api, rHosts := correctHosts\<rparr>) apiName
             (patchIf (aPreserveHost api \<noteq> True)
                (emptyRequest\<lparr>rID := aID api, rPreserveHost := True\<rparr>) apiName
             (patchIf (aUris api = [] \<or> aUris api ! 0 \<noteq> Path ingressPath)
                (emptyRequest\<lparr>rID := aID api, rUris := Path ingressPath\<rparr>) apiName
              returnNil))) k))"

definition reconcileAPI_v2 ::
    "kong \<Rightarrow> IngressRule \<Rightarrow> HTTPIngressPath \<Rightarrow> string \<Rightarrow> outcome \<times> kong" where
  "reconcileAPI_v2 k ingressRule ingressPath namespace =
     (let apiName = getQualifiedAPIName (Host ingressRule) (Path ingressPath) namespace
      in case Apis_Get k apiName of
           ((api, resp, err), k1) \<Rightarrow>
             (let rest =
                (case resp of
                   None \<Rightarrow> (Panic, k1)
                 | Some code \<Rightarrow>
                     if code = 404
                     then (case apiRequestFromIngress_v2 ingressRule ingressPath namespace of
                             None \<Rightarrow> (Panic, k1)
                           | Some kongAPI \<Rightarrow>
                               (case Apis_Post k1 kongAPI of
                                  (Some e, k2) \<Rightarrow>
                                    (Error (Wrapf e (''Failed to create API '' @ squote apiName)), k2)
                                | (None, k2) \<Rightarrow> (Nil, k2)))
                     else (case api of
                             None \<Rightarrow> (Panic, k1)
                           | Some a \<Rightarrow> patchDrift_v2 a ingressRule ingressPath namespace apiName k1))
              in case err of
                   Some e \<Rightarrow>
                     if resp = None \<or> resp \<noteq> Some 404
                     then (Error (Wrapf e (''Failed to fetch API '' @ squote apiName)), k1)
                     else rest
                 | None \<Rightarrow> rest))"

subsection \<open>The simple form\<close>

text \<open>The else-branch of \<^verbatim>\<open>reconcileAPI\<close> (part_001, lines 163-194): three drift checks.\<close>

definition patchDrift_v1 :: "Api \<Rightarrow> Ingress \<Rightarrow> string \<Rightarrow> kong \<Rightarrow> outcome \<times> kong" where
  "patchDrift_v1 api ingress apiName k =
     (case getUpstreamURL_v1 ingress of
        None \<Rightarrow> (Panic, k)
      | Some correctUpstreamURL \<Rightarrow>
          patchIf (aUpstreamURL api \<noteq> correctUpstreamURL)
            (emptyRequest\<lparr>rID := aID api, rUpstreamURL := correctUpstreamURL\<rparr>) apiName
          (\<lambda>k. case firstRuleHost_v1 ingress of
                 None \<Rightarrow> (Panic, k)
               | Some correctHosts \<Rightarrow>
                   patchIf (length (aHosts api) \<noteq> 1 \<or> aHosts api ! 0 \<noteq> correctHosts)
                     (emptyRequest\<lparr>rID := aID api, rHosts := correctHosts\<rparr>) apiName
                   (patchIf (aPreserveHost api \<noteq> True)
                     (emptyRequest\<lparr>rID := aID api, rPreserveHost := True\<rparr>) apiName
                    returnNil) k) k)"

definition reconcileAPI_v1 :: "kong \<Rightarrow> Ingress \<Rightarrow> outcome \<times> kong" where
  "reconcileAPI_v1 k ingress =
     (let apiName = getQualifiedName_v1 ingress
      in case Apis_Get k apiName of
           ((api, resp, err), k1) \<Rightarrow>
             (let rest =
                (case resp of
                   None \<Rightarrow> (Panic, k1)
                 | Some code \<Rightarrow>
                     if code = 404
                     then (case apiRequestFromIngress_v1 ingress of
                             None \<Rightarrow> (Panic, k1)
                           | Some kongAPI \<Rightarrow>
                               (case Apis_Post k1 kongAPI of
                                  (Some e, k2) \<Rightarrow>
                                    (Error (Wrapf e (''Failed to create API '' @ squote apiName)), k2)
                                | (None, k2) \<Rightarrow> (Nil, k2)))
                     else (case api of
                             None \<Rightarrow> (Panic, k1)
                           | Some a \<Rightarrow> patchDrift_v1 a ingress apiName k1))
              in case err of
                   Some e \<Rightarrow>
                     if resp = None \<or> resp \<noteq> Some 404
                     then (Error (Wrapf e (''Failed to fetch API '' @ squote apiName)), k1)
                     else rest
                 | None \<Rightarrow> rest))"

section \<open>The orphan reaper\<close>

text \<open>
  The loops that fill \<^verbatim>\<open>ingMap\<close> (controller.go, lines 103-112). A missing key of a
  \<^verbatim>\<open>map[string]bool\<close> reads as false. \<^verbatim>\<open>ingressRule.HTTP.Paths\<close> panics on a nil
  \<^verbatim>\<open>HTTP\<close>, which is \<open>None\<close> here.
\<close>

fun addPaths ::
    "(string \<Rightarrow> bool) \<Rightarrow> string \<Rightarrow> string \<Rightarrow> HTTPIngressPath list \<Rightarrow> (string \<Rightarrow> bool)" where
  "addPaths ingMap host namespace [] = ingMap"
| "addPaths ingMap host namespace (ingressPath # rest) =
     addPaths (ingMap(getQualifiedAPIName host (Path ingressPath) namespace := True))
       host namespace rest"

fun addRules ::
    "(string \<Rightarrow> bool) \<Rightarrow> string \<Rightarrow> IngressRule list \<Rightarrow> (string \<Rightarrow> bool) option" where
  "addRules ingMap namespace [] = Some ingMap"
| "addRules ingMap namespace (ingressRule # rest) =
     (case HTTP ingressRule of
        None \<Rightarrow> None
      | Some h \<Rightarrow> addRules (addPaths ingMap (Host ingressRule) namespace (Paths h)) namespace rest)"

fun addIngresses :: "(string \<Rightarrow> bool) \<Rightarrow> Ingress list \<Rightarrow> (string \<Rightarrow> bool) option" where
  "addIngresses ingMap [] = Some ingMap"
| "addIngresses ingMap (ingress # rest) =
     (if ingressIsFairGame ingress
      then (case addRules ingMap (Namespace (Meta ingress)) (Rules (Spec ingress)) of
              None \<Rightarrow> None
            | Some ingMap' \<Rightarrow> addIngresses ingMap' rest)
      else addIngresses ingMap rest)"

text \<open>
  The delete loop (controller.go, lines 114-123). A failed delete is logged and the loop
  goes on; the second component collects the logged failures.
\<close>

fun reapLoop ::
    "kong \<Rightarrow> (string \<Rightarrow> bool) \<Rightarrow> Api list \<Rightarrow> kong \<times> (string \<times> error) list" where
  "reapLoop k ingMap [] = (k, [])"
| "reapLoop k ingMap (api # rest) =
     (if \<not> ingMap (aName api)
      then (case deleteKongAPI k (aName api) of
              (Some err, k') \<Rightarrow>
                (case reapLoop k' ingMap rest of (k'', logged) \<Rightarrow> (k'', (aName api, err) # logged))
            | (None, k') \<Rightarrow> reapLoop k' ingMap rest)
      else reapLoop k ingMap rest)"

text \<open>
  \<^verbatim>\<open>reapOrphanedApis\<close>; the second argument is what the list call of the cluster client
  returns. The result is what the function returns, the gateway afterwards and the
  delete failures it logged.
\<close>

definition reapOrphanedApis ::
    "kong \<Rightarrow> error + Ingress list \<Rightarrow> outcome \<times> kong \<times> (string \<times> error) list" where
  "reapOrphanedApis k ingressObjects =
     (case Apis_GetAll k of
        (Inl err, k1) \<Rightarrow> (Error (Wrapf err ''Failed to get kong api list''), k1, [])
      | (Inr kongApis, k1) \<Rightarrow>
          (case ingressObjects of
             Inl err \<Rightarrow> (Error (Wrapf err ''Failed to get ingress list''), k1, [])
           | Inr items \<Rightarrow>
               (case addIngresses (\<lambda>_. False) items of
                  None \<Rightarrow> (Panic, k1, [])
                | Some ingMap \<Rightarrow>
                    (case reapLoop k1 ingMap kongApis of (k2, logged) \<Rightarrow> (Nil, k2, logged)))))"

subsection \<open>The simple form\<close>

fun addIngresses_v1 :: "(string \<Rightarrow> bool) \<Rightarrow> Ingress list \<Rightarrow> (string \<Rightarrow> bool)" where
  "addIngresses_v1 ingMap [] = ingMap"
| "addIngresses_v1 ingMap (ingress # rest) =
     addIngresses_v1 (ingMap(getQualifiedName_v1 ingress := True)) rest"

definition reapOrphanedApis_v1 ::
    "kong \<Rightarrow> error + Ingress list \<Rightarrow> outcome \<times> kong \<times> (string \<times> error) list" where
  "reapOrphanedApis_v1 k ingressObjects =
     (case Apis_GetAll k of
        (Inl err, k1) \<Rightarrow> (Error (Wrapf err ''Failed to get kong api list''), k1, [])
      | (Inr kongApis, k1) \<Rightarrow>
          (case ingressObjects of
             Inl err \<Rightarrow> (Error (Wrapf err ''Failed to get ingress list''), k1, [])
           | Inr items \<Rightarrow>
               (case reapLoop k1 (addIngresses_v1 (\<lambda>_. False) items) kongApis of
                  (k2, logged) \<Rightarrow> (Nil, k2, logged))))"

section \<open>Notions used to state the properties\<close>

text \<open>The value of a string of lowercase hexadecimal digits.\<close>

definition hexDigitVal :: "char \<Rightarrow> nat" where
  "hexDigitVal c = (if (of_char c :: nat) < 97 then of_char c - 48 else of_char c - 87)"

definition parseHex :: "string \<Rightarrow> nat" where
  "parseHex s = foldl (\<lambda>acc c. 16 * acc + hexDigitVal c) 0 s"

text \<open>The paths of a rule; a rule without an HTTP block has none.\<close>

definition rulePaths :: "IngressRule \<Rightarrow> HTTPIngressPath list" where
  "rulePaths r = (case HTTP r of None \<Rightarrow> [] | Some h \<Rightarrow> Paths h)"

text \<open>A function returned a non-nil error.\<close>

fun failed :: "outcome \<Rightarrow> bool" where
  "failed (Error e) = True"
| "failed Nil = False"
| "failed Panic = False"

text \<open>The requests issued between two states of the gateway.\<close>

definition issued :: "kong \<Rightarrow> kong \<Rightarrow> request list" where
  "issued k k' = drop (length (sent k)) (sent k')"

text \<open>
  The names the composite reaper protects: the qualified names of the (rule, path) pairs
  of the eligible ingresses of a snapshot.
\<close>

definition pairNames :: "Ingress \<Rightarrow> string list" where
  "pairNames ingress =
     concat (map (\<lambda>r. map (\<lambda>p. getQualifiedAPIName (Host r) (Path p) (Namespace (Meta ingress)))
                          (rulePaths r))
                 (Rules (Spec ingress)))"

definition expectedNames :: "Ingress list \<Rightarrow> string set" where
  "expectedNames items = set (concat (map pairNames (filter ingressIsFairGame items)))"

text \<open>The desired upstream URL of a backend in a namespace (section 3 of the specification).\<close>

definition desiredURL :: "IngressBackend \<Rightarrow> string \<Rightarrow> string" where
  "desiredURL backend namespace =
     ''http://'' @ ServiceName backend @ ''.'' @ namespace @ '':''
       @ IntOrString_String (ServicePort backend)"

text \<open>\<^verbatim>\<open>sampleIngress\<close> of the repository's tests (part_000, lines 431-458).\<close>

definition sampleIngress :: "string \<Rightarrow> string \<Rightarrow> Ingress" where
  "sampleIngress name namespace =
     \<lparr>Meta = \<lparr>Name = name, Namespace = namespace, Annotations = Map.empty\<rparr>,
      Spec = \<lparr>SpecBackend = None,
              Rules = [\<lparr>Host = name @ ''.somedomain'',
                        HTTP = Some \<lparr>Paths = [\<lparr>Path = ''/'',
                                 Backend = \<lparr>ServiceName = ''service-1'',
                                            ServicePort = FromInt 32000\<rparr>\<rparr>]\<rparr>\<rparr>]\<rparr>\<rparr>"

text \<open>The single rule and the single path of \<^verbatim>\<open>sampleIngress\<close>.\<close>

definition samplePath :: HTTPIngressPath where
  "samplePath =
     \<lparr>Path = ''/'', Backend = \<lparr>ServiceName = ''service-1'', ServicePort = FromInt 32000\<rparr>\<rparr>"

definition sampleRule :: "string \<Rightarrow> IngressRule" where
  "sampleRule name = \<lparr>Host = name @ ''.somedomain'', HTTP = Some \<lparr>Paths = [samplePath]\<rparr>\<rparr>"

text \<open>
  The gateway record that satisfies invariant I1 of the specification for a (rule, path)
  pair in the composite form.
\<close>

definition convergedApi :: "IngressRule \<Rightarrow> HTTPIngressPath \<Rightarrow> string \<Rightarrow> Api" where
  "convergedApi rule path namespace =
     \<lparr>aID = getQualifiedAPIName (Host rule) (Path path) namespace,
      aName = getQualifiedAPIName (Host rule) (Path path) namespace,
      aUpstreamURL = desiredURL (Backend path) namespace,
      aHosts = [Host rule], aUris = [Path path],
      aPreserveHost = True, aStripURI = Some False\<rparr>"

text \<open>
  A gateway record of which only the id, the name and the upstream URL are set, as the
  mock gateway of the repository's tests returns them.
\<close>

definition apiNamed :: "string \<Rightarrow> Api" where
  "apiNamed name =
     \<lparr>aID = name, aName = name, aUpstreamURL = name, aHosts = [], aUris = [],
      aPreserveHost = False, aStripURI = None\<rparr>"

text \<open>A gateway holding the given records, with nothing sent yet and no failure scheduled.\<close>

definition gateway :: "Api list \<Rightarrow> kong" where
  "gateway as = \<lparr>apis = as, sent = [], faults = (\<lambda>_. None)\<rparr>"

text \<open>A schedule in which the request number \<open>i\<close> alone fails, with status 500.\<close>

definition failAt :: "nat \<Rightarrow> nat \<Rightarrow> error option" where
  "failAt i j = (if j = i then Some (HTTPStatus 500) else None)"

text \<open>An ingress with one rule and two paths that lead to different services.\<close>

definition pathA :: HTTPIngressPath where
  "pathA = \<lparr>Path = ''/a'', Backend = \<lparr>ServiceName = ''service-a'', ServicePort = FromInt 80\<rparr>\<rparr>"

definition pathB :: HTTPIngressPath where
  "pathB = \<lparr>Path = ''/b'', Backend = \<lparr>ServiceName = ''service-b'', ServicePort = FromInt 80\<rparr>\<rparr>"

definition twoPathRule :: IngressRule where
  "twoPathRule = \<lparr>Host = ''bestservice.somedomain'', HTTP = Some \<lparr>Paths = [pathA, pathB]\<rparr>\<rparr>"

definition twoPathIngress :: Ingress where
  "twoPathIngress =
     \<lparr>Meta = \<lparr>Name = ''bestservice'', Namespace = ''prod'', Annotations = Map.empty\<rparr>,
      Spec = \<lparr>SpecBackend = None, Rules = [twoPathRule]\<rparr>\<rparr>"

text \<open>\<^verbatim>\<open>sampleIngress\<close> with the class annotation of another controller.\<close>

definition nginxIngress :: "string \<Rightarrow> string \<Rightarrow> Ingress" where
  "nginxIngress name namespace =
     (sampleIngress name namespace)
       \<lparr>Meta := \<lparr>Name = name, Namespace = namespace,
                Annotations = [ingressClassAnnotationName \<mapsto> ''nginx'']\<rparr>\<rparr>"

section \<open>Eligibility\<close>

text \<open>
  C7. \<^verbatim>\<open>ingressIsFairGame\<close> (the same text in both composite revisions) is true if and
  only if the ingress-class annotation is absent from the annotation map or present with
  the value \<^verbatim>\<open>kong\<close>; an ingress with no annotations at all is eligible.
\<close>

theorem ingressIsFairGame_iff:
  "(ingressIsFairGame ingress \<longleftrightarrow>
      Annotations (Meta ingress) ingressClassAnnotationName = None \<or>
      Annotations (Meta ingress) ingressClassAnnotationName = Some ''kong'')
   \<and> ingressIsFairGame (ingress\<lparr>Meta := (Meta ingress)\<lparr>Annotations := Map.empty\<rparr>\<rparr>)"
  by (auto simp: ingressIsFairGame_def lookup2_def kongIngressControllerClass_def
        split: option.splits)

theorem ingressIsFairGame_iff_witness:
  "ingressIsFairGame (sampleIngress ''bestservice'' ''prod'')
   \<and> \<not> ingressIsFairGame
         ((sampleIngress ''bestservice'' ''prod'')
            \<lparr>Meta := \<lparr>Name = ''bestservice'', Namespace = ''prod'',
                     Annotations = [ingressClassAnnotationName \<mapsto> ''nginx'']\<rparr>\<rparr>)"
  using ingressIsFairGame_iff [of "sampleIngress ''bestservice'' ''prod''"]
    ingressIsFairGame_iff [of "(sampleIngress ''bestservice'' ''prod'')
            \<lparr>Meta := \<lparr>Name = ''bestservice'', Namespace = ''prod'',
                     Annotations = [ingressClassAnnotationName \<mapsto> ''nginx'']\<rparr>\<rparr>"]
  by (simp add: sampleIngress_def)

section \<open>Qualified names\<close>

lemma lt16_cases:
  "d < (16::nat) \<Longrightarrow> d = 0 \<or> d = 1 \<or> d = 2 \<or> d = 3 \<or> d = 4 \<or> d = 5 \<or> d = 6 \<or> d = 7 \<or>
     d = 8 \<or> d = 9 \<or> d = 10 \<or> d = 11 \<or> d = 12 \<or> d = 13 \<or> d = 14 \<or> d = 15"
  by arith

lemma hex_digit_lower: "d < 16 \<Longrightarrow> digits ! d \<in> set ''0123456789abcdef''"
  by (drule lt16_cases) (auto simp: digits_def)

lemma hex_digit_val: "d < 16 \<Longrightarrow> hexDigitVal (digits ! d) = d"
  by (drule lt16_cases) (auto simp: digits_def hexDigitVal_def)

lemma FormatUint_hex_chars: "set (FormatUint n 16) \<subseteq> set ''0123456789abcdef''"
proof (induction n "16::nat" rule: FormatUint.induct)
  case (1 n)
  show ?case
  proof (cases "n < 16")
    case True
    then show ?thesis using hex_digit_lower [of n] by (subst FormatUint.simps) simp
  next
    case False
    have "n mod 16 < 16" by simp
    then have "digits ! (n mod 16) \<in> set ''0123456789abcdef''" by (rule hex_digit_lower)
    with False 1 show ?thesis by (subst FormatUint.simps) simp
  qed
qed

lemma parseHex_snoc: "parseHex (s @ [c]) = 16 * parseHex s + hexDigitVal c"
  by (simp add: parseHex_def)

lemma parseHex_FormatUint: "parseHex (FormatUint n 16) = n"
proof (induction n "16::nat" rule: FormatUint.induct)
  case (1 n)
  show ?case
  proof (cases "n < 16")
    case True
    then show ?thesis
      by (subst FormatUint.simps) (simp add: parseHex_def hex_digit_val)
  next
    case False
    with 1 have "parseHex (FormatUint (n div 16) 16) = n div 16" by simp
    with False show ?thesis
      by (subst FormatUint.simps) (simp add: parseHex_snoc hex_digit_val)
  qed
qed

lemma FormatUint_nonempty: "FormatUint n b \<noteq> []"
  by (subst FormatUint.simps) simp

lemma FormatUint_length: "n < 16 ^ Suc k \<Longrightarrow> length (FormatUint n 16) \<le> Suc k"
proof (induction k arbitrary: n)
  case 0
  then show ?case by (subst FormatUint.simps) simp
next
  case (Suc k)
  show ?case
  proof (cases "n < 16")
    case True
    then show ?thesis by (subst FormatUint.simps) simp
  next
    case False
    from Suc.prems have "n div 16 < 16 ^ Suc k" by (simp add: less_mult_imp_div_less mult.commute)
    then have "length (FormatUint (n div 16) 16) \<le> Suc k" by (rule Suc.IH)
    with False show ?thesis by (subst FormatUint.simps) simp
  qed
qed

lemma hashString_length: "length (hashString path) \<le> 8"
proof -
  have "unat (Checksum path) < 2 ^ 32" using unsigned_less [of "Checksum path"] by simp
  then have "unat (Checksum path) < 16 ^ Suc 7" by simp
  then show ?thesis unfolding hashString_def by (rule FormatUint_length [THEN order_trans]) simp
qed

text \<open>
  C8. In the composite form the qualified name of (host, path, namespace) is the host,
  a tilde, the hash of the path, a tilde and the namespace. The hash is the Adler-32
  checksum of the path written in lowercase hexadecimal: it is not empty, has at most
  eight digits, all among \<^verbatim>\<open>0-9a-f\<close>, and reads back as the checksum. The name is a function
  of the three strings alone.
\<close>

theorem getQualifiedAPIName_composite:
  "getQualifiedAPIName host path namespace = host @ ''~'' @ hashString path @ ''~'' @ namespace
   \<and> hashString path = FormatUint (unat (Checksum path)) 16
   \<and> set (hashString path) \<subseteq> set ''0123456789abcdef''
   \<and> hashString path \<noteq> []
   \<and> length (hashString path) \<le> 8
   \<and> parseHex (hashString path) = unat (Checksum path)"
  using hashString_length [of path]
  by (simp add: getQualifiedAPIName_def hashString_def FormatUint_hex_chars
        FormatUint_nonempty parseHex_FormatUint del: set_simps)

theorem getQualifiedAPIName_composite_witness:
  "getQualifiedAPIName ''bestservice.somedomain'' ''/'' ''prod''
     = ''bestservice.somedomain~300030~prod''"
  using getQualifiedAPIName_composite [of "''bestservice.somedomain''" "''/''" "''prod''"]
  by (simp add: Checksum_def FormatUint.simps digits_def)

section \<open>Validation\<close>

text \<open>
  C9, as amended. In the composite form \<^verbatim>\<open>validateIngressSupported\<close> fails if and only
  if the ingress carries a default backend, and returns nil otherwise. In the simple form,
  for an ingress whose rules all carry an HTTP block, it fails if and only if the ingress
  carries a default backend, or has a number of rules different from one, or its single
  rule has a number of paths different from one, or its single path differs from
  \<^verbatim>\<open>/\<close>; it returns nil otherwise.
\<close>

theorem validateIngressSupported_shapes:
  "failed (validateIngressSupported ingress) = (SpecBackend (Spec ingress) \<noteq> None)
   \<and> (validateIngressSupported ingress = Nil) = (SpecBackend (Spec ingress) = None)
   \<and> ((\<forall>r \<in> set (Rules (Spec ingress)). HTTP r \<noteq> None) \<longrightarrow>
        failed (validateIngressSupported_v1 ingress) =
          (SpecBackend (Spec ingress) \<noteq> None
           \<or> length (Rules (Spec ingress)) \<noteq> 1
           \<or> length (rulePaths (Rules (Spec ingress) ! 0)) \<noteq> 1
           \<or> Path (rulePaths (Rules (Spec ingress) ! 0) ! 0) \<noteq> ''/'')
        \<and> (validateIngressSupported_v1 ingress = Nil) =
          (SpecBackend (Spec ingress) = None
           \<and> length (Rules (Spec ingress)) = 1
           \<and> length (rulePaths (Rules (Spec ingress) ! 0)) = 1
           \<and> Path (rulePaths (Rules (Spec ingress) ! 0) ! 0) = ''/''))"
proof -
  have v3: "failed (validateIngressSupported ingress) = (SpecBackend (Spec ingress) \<noteq> None)"
    "(validateIngressSupported ingress = Nil) = (SpecBackend (Spec ingress) = None)"
    by (simp_all add: validateIngressSupported_def)
  have v1: "failed (validateIngressSupported_v1 ingress) =
          (SpecBackend (Spec ingress) \<noteq> None
           \<or> length (Rules (Spec ingress)) \<noteq> 1
           \<or> length (rulePaths (Rules (Spec ingress) ! 0)) \<noteq> 1
           \<or> Path (rulePaths (Rules (Spec ingress) ! 0) ! 0) \<noteq> ''/'')
        \<and> (validateIngressSupported_v1 ingress = Nil) =
          (SpecBackend (Spec ingress) = None
           \<and> length (Rules (Spec ingress)) = 1
           \<and> length (rulePaths (Rules (Spec ingress) ! 0)) = 1
           \<and> Path (rulePaths (Rules (Spec ingress) ! 0) ! 0) = ''/'')"
    if h: "\<forall>r \<in> set (Rules (Spec ingress)). HTTP r \<noteq> None"
  proof (cases "length (Rules (Spec ingress)) = 1")
    case True
    then have "Rules (Spec ingress) ! 0 \<in> set (Rules (Spec ingress))" by simp
    with h obtain hb where hb: "HTTP (Rules (Spec ingress) ! 0) = Some hb" by auto
    with True show ?thesis
      by (simp add: validateIngressSupported_v1_def rulePaths_def)
  next
    case False
    then show ?thesis by (simp add: validateIngressSupported_v1_def)
  qed
  from v3 v1 show ?thesis by blast
qed

theorem validateIngressSupported_shapes_witness:
  "validateIngressSupported (sampleIngress ''somename'' ''infra'') = Nil
   \<and> validateIngressSupported_v1 (sampleIngress ''somename'' ''infra'') = Nil"
  using validateIngressSupported_shapes [of "sampleIngress ''somename'' ''infra''"]
  by (simp add: sampleIngress_def rulePaths_def)

text \<open>A rule without an HTTP block: the simple form dereferences the nil pointer.\<close>

lemma validateIngressSupported_v1_nil_HTTP:
  "validateIngressSupported_v1
     \<lparr>Meta = \<lparr>Name = ''somename'', Namespace = ''infra'', Annotations = Map.empty\<rparr>,
      Spec = \<lparr>SpecBackend = None,
              Rules = [\<lparr>Host = ''somename.somedomain'', HTTP = None\<rparr>]\<rparr>\<rparr>
     = Panic"
  by (simp add: validateIngressSupported_v1_def)

text \<open>
  The claim as first stated lets a single rule fail only for more than one path or a
  path other than \<^verbatim>\<open>/\<close>. A single rule with no path at all has neither, and the simple
  form rejects it.
\<close>

theorem validateIngressSupported_v1_no_path_counterexample:
  "validateIngressSupported_v1
     \<lparr>Meta = \<lparr>Name = ''somename'', Namespace = ''infra'', Annotations = Map.empty\<rparr>,
      Spec = \<lparr>SpecBackend = None,
              Rules = [\<lparr>Host = ''somename.somedomain'', HTTP = Some \<lparr>Paths = []\<rparr>\<rparr>]\<rparr>\<rparr>
     = Error (New ''Only ingresses with a single root path are currently supported'')
   \<and> rulePaths \<lparr>Host = ''somename.somedomain'', HTTP = Some \<lparr>Paths = []\<rparr>\<rparr> = []
   \<and> \<not> 1 < length (rulePaths \<lparr>Host = ''somename.somedomain'', HTTP = Some \<lparr>Paths = []\<rparr>\<rparr>)"
  by (simp add: validateIngressSupported_v1_def rulePaths_def)

section \<open>Requests and the gateway's store\<close>

lemma issued_issue [simp]: "issued k (issue r k) = [r]"
  by (simp add: issued_def issue_def)

lemma apis_issue [simp]: "apis (issue r k) = apis k"
  by (simp add: issue_def)

lemma sent_issue [simp]: "sent (issue r k) = sent k @ [r]"
  by (simp add: issue_def)

lemma faults_issue [simp]: "faults (issue r k) = faults k"
  by (simp add: issue_def)

lemma Apis_Get_state: "snd (Apis_Get k name) = issue (Get name) k"
  by (simp add: Apis_Get_def split: option.splits)

lemma Apis_Delete_sent: "sent (snd (Apis_Delete k name)) = sent k @ [Delete name]"
  by (simp add: Apis_Delete_def split: option.splits)

lemma list_ex_find_None: "find P xs = None \<longleftrightarrow> \<not> list_ex P xs"
  by (auto simp: find_None_iff list_ex_iff)

section \<open>Deleting a gateway API\<close>

text \<open>
  C6. \<^verbatim>\<open>deleteKongAPI\<close> (the same text in every revision) GETs the record first. If the
  GET fails it returns that error, wrapped, having issued the GET alone and leaving the
  store as it was. If the GET succeeds the requests issued are the GET and then the
  DELETE. On a gateway that holds the name and answers three requests without failure,
  the first call returns nil and removes the record, and a second call returns the
  wrapped 404 of its GET, issues no DELETE and leaves the store as the first call left it.
\<close>

theorem deleteKongAPI_get_guards_delete:
  "(Apis_Get k apiName = ((api, resp, Some e), k1) \<longrightarrow>
      deleteKongAPI k apiName
        = (Some (Wrapf e (''Failed to retrieve kong api '' @ squote apiName)), k1)
      \<and> issued k k1 = [Get apiName] \<and> apis k1 = apis k)
   \<and> (Apis_Get k apiName = ((api, resp, None), k1) \<longrightarrow>
      issued k (snd (deleteKongAPI k apiName)) = [Get apiName, Delete apiName])
   \<and> (list_ex (\<lambda>a. aName a = apiName) (apis k)
       \<and> faults k (length (sent k)) = None
       \<and> faults k (length (sent k) + 1) = None
       \<and> faults k (length (sent k) + 2) = None \<longrightarrow>
      fst (deleteKongAPI k apiName) = None
      \<and> apis (snd (deleteKongAPI k apiName)) = filter (\<lambda>a. aName a \<noteq> apiName) (apis k)
      \<and> deleteKongAPI (snd (deleteKongAPI k apiName)) apiName
          = (Some (Wrapf (HTTPStatus 404) (''Failed to retrieve kong api '' @ squote apiName)),
             issue (Get apiName) (snd (deleteKongAPI k apiName))))"
proof (intro conjI impI)
  assume g: "Apis_Get k apiName = ((api, resp, Some e), k1)"
  then show "deleteKongAPI k apiName
        = (Some (Wrapf e (''Failed to retrieve kong api '' @ squote apiName)), k1)"
    by (simp add: deleteKongAPI_def)
  from g have "k1 = issue (Get apiName) k" using Apis_Get_state [of k apiName] by simp
  then show "issued k k1 = [Get apiName]" "apis k1 = apis k" by simp_all
next
  assume g: "Apis_Get k apiName = ((api, resp, None), k1)"
  then have k1: "k1 = issue (Get apiName) k" using Apis_Get_state [of k apiName] by simp
  have "sent (snd (deleteKongAPI k apiName)) = sent k @ [Get apiName, Delete apiName]"
    using g Apis_Delete_sent [of k1 apiName]
    by (auto simp: deleteKongAPI_def k1 split: prod.splits option.splits)
  then show "issued k (snd (deleteKongAPI k apiName)) = [Get apiName, Delete apiName]"
    by (simp add: issued_def)
next
  assume h: "list_ex (\<lambda>a. aName a = apiName) (apis k)
       \<and> faults k (length (sent k)) = None
       \<and> faults k (length (sent k) + 1) = None
       \<and> faults k (length (sent k) + 2) = None"
  then obtain a where a: "find (\<lambda>a. aName a = apiName) (apis k) = Some a"
    using list_ex_find_None [of "\<lambda>a. aName a = apiName" "apis k"] by (cases "find (\<lambda>a. aName a = apiName) (apis k)") auto
  have d: "deleteKongAPI k apiName
     = (None, issue (Delete apiName)
          ((issue (Get apiName) k)\<lparr>apis := filter (\<lambda>a. aName a \<noteq> apiName) (apis k)\<rparr>))"
    using h a by (simp add: deleteKongAPI_def Apis_Get_def Apis_Delete_def fault_now_def)
  show "fst (deleteKongAPI k apiName) = None" by (simp add: d)
  show "apis (snd (deleteKongAPI k apiName)) = filter (\<lambda>a. aName a \<noteq> apiName) (apis k)"
    by (simp add: d)
  have n: "find (\<lambda>a. aName a = apiName) (filter (\<lambda>a. aName a \<noteq> apiName) (apis k)) = None"
    by (simp add: find_None_iff)
  show "deleteKongAPI (snd (deleteKongAPI k apiName)) apiName
          = (Some (Wrapf (HTTPStatus 404) (''Failed to retrieve kong api '' @ squote apiName)),
             issue (Get apiName) (snd (deleteKongAPI k apiName)))"
    unfolding d snd_conv using h n
    by (simp add: deleteKongAPI_def Apis_Get_def fault_now_def)
qed


theorem deleteKongAPI_get_guards_delete_witness:
  "fst (deleteKongAPI (gateway [apiNamed ''boringservice.infra'']) ''boringservice.infra'') = None
   \<and> issued (gateway [apiNamed ''boringservice.infra''])
        (snd (deleteKongAPI (gateway [apiNamed ''boringservice.infra'']) ''boringservice.infra''))
       = [Get ''boringservice.infra'', Delete ''boringservice.infra'']
   \<and> fst (deleteKongAPI
          (snd (deleteKongAPI (gateway [apiNamed ''boringservice.infra'']) ''boringservice.infra''))
          ''boringservice.infra'')
       = Some (Wrapf (HTTPStatus 404)
                (''Failed to retrieve kong api '' @ squote ''boringservice.infra''))
   \<and> deleteKongAPI (gateway []) ''boringservice.infra''
       = (Some (Wrapf (HTTPStatus 404)
                 (''Failed to retrieve kong api '' @ squote ''boringservice.infra'')),
          issue (Get ''boringservice.infra'') (gateway []))"
proof -
  let ?n = "''boringservice.infra''"
  let ?k = "gateway [apiNamed ?n]"
  have g: "Apis_Get ?k ?n = ((Some (apiNamed ?n), Some 200, None), issue (Get ?n) ?k)"
    by (simp add: Apis_Get_def fault_now_def gateway_def apiNamed_def)
  have g0: "Apis_Get (gateway []) ?n
      = ((None, Some 404, Some (HTTPStatus 404)), issue (Get ?n) (gateway []))"
    by (simp add: Apis_Get_def fault_now_def gateway_def)
  have h: "list_ex (\<lambda>a. aName a = ?n) (apis ?k)
       \<and> faults ?k (length (sent ?k)) = None
       \<and> faults ?k (length (sent ?k) + 1) = None
       \<and> faults ?k (length (sent ?k) + 2) = None"
    by (simp add: gateway_def apiNamed_def)
  from deleteKongAPI_get_guards_delete
         [of ?k ?n "Some (apiNamed ?n)" "Some 200" NoResponse "issue (Get ?n) ?k"]
       deleteKongAPI_get_guards_delete
         [of "gateway []" ?n None "Some 404" "HTTPStatus 404" "issue (Get ?n) (gateway [])"]
       g g0 h
  show ?thesis by simp
qed

section \<open>The reaper and failed listings\<close>

text \<open>
  C4. If listing the gateway APIs fails, \<^verbatim>\<open>reapOrphanedApis\<close> (composite and simple
  form) returns that error, wrapped; if listing the ingresses fails it returns that
  error, wrapped. In both cases the only request issued is the \<^verbatim>\<open>GET /apis\<close> of the
  listing itself, no delete is attempted and the store is unchanged.
\<close>

theorem reapOrphanedApis_list_failure:
  "(fst (Apis_GetAll k) = Inl e \<longrightarrow>
      reapOrphanedApis k ingressObjects
        = (Error (Wrapf e ''Failed to get kong api list''), issue GetAll k, [])
      \<and> reapOrphanedApis_v1 k ingressObjects
        = (Error (Wrapf e ''Failed to get kong api list''), issue GetAll k, []))
   \<and> (fst (Apis_GetAll k) = Inr kongApis \<longrightarrow>
      reapOrphanedApis k (Inl e)
        = (Error (Wrapf e ''Failed to get ingress list''), issue GetAll k, [])
      \<and> reapOrphanedApis_v1 k (Inl e)
        = (Error (Wrapf e ''Failed to get ingress list''), issue GetAll k, []))
   \<and> apis (issue GetAll k) = apis k
   \<and> issued k (issue GetAll k) = [GetAll]"
  by (auto simp: reapOrphanedApis_def reapOrphanedApis_v1_def Apis_GetAll_def
        split: option.splits)

theorem reapOrphanedApis_list_failure_witness:
  "reapOrphanedApis
     \<lparr>apis = [apiNamed ''orphanedAPI1''], sent = [], faults = (\<lambda>_. Some (HTTPStatus 500))\<rparr>
     (Inr [])
     = (Error (Wrapf (HTTPStatus 500) ''Failed to get kong api list''),
        \<lparr>apis = [apiNamed ''orphanedAPI1''], sent = [GetAll],
         faults = (\<lambda>_. Some (HTTPStatus 500))\<rparr>, [])
   \<and> reapOrphanedApis_v1 (gateway [apiNamed ''orphanedAPI1'']) (Inl (New ''connection refused''))
     = (Error (Wrapf (New ''connection refused'') ''Failed to get ingress list''),
        \<lparr>apis = [apiNamed ''orphanedAPI1''], sent = [GetAll], faults = (\<lambda>_. None)\<rparr>, [])"
proof -
  let ?down = "\<lparr>apis = [apiNamed ''orphanedAPI1''], sent = [],
                 faults = (\<lambda>_. Some (HTTPStatus 500))\<rparr>"
  let ?up = "gateway [apiNamed ''orphanedAPI1'']"
  have a: "fst (Apis_GetAll ?down) = Inl (HTTPStatus 500)"
    by (simp add: Apis_GetAll_def fault_now_def)
  have b: "fst (Apis_GetAll ?up) = Inr [apiNamed ''orphanedAPI1'']"
    by (simp add: Apis_GetAll_def fault_now_def gateway_def)
  from reapOrphanedApis_list_failure [of ?down "HTTPStatus 500" "Inr []" "[]"]
       reapOrphanedApis_list_failure
         [of ?up "New ''connection refused''" "Inr []" "[apiNamed ''orphanedAPI1'']"]
       a b
  show ?thesis by (simp add: issue_def gateway_def)
qed

section \<open>Reconciling an existing record\<close>

lemma Apis_Patch_sent: "Apis_Patch k req = (x, k') \<Longrightarrow> sent k' = sent k @ [Patch req]"
  by (auto simp: Apis_Patch_def split: option.splits if_splits)

lemma Apis_Post_sent: "Apis_Post k req = (x, k') \<Longrightarrow> sent k' = sent k @ [Post req]"
  by (auto simp: Apis_Post_def split: option.splits if_splits)

lemma issued_append: "sent k' = sent k @ xs \<Longrightarrow> issued k k' = xs"
  by (simp add: issued_def)

lemma reconcileAPI_existing:
  assumes "Apis_Get k (getQualifiedAPIName (Host rule) (Path path) ns)
             = ((Some a, Some code, None), k1)" and "code \<noteq> 404"
  shows "reconcileAPI k rule path ns
           = patchDrift a rule path ns (getQualifiedAPIName (Host rule) (Path path) ns) k1"
  using assms by (simp add: reconcileAPI_def Let_def)

lemma reconcileAPI_v1_existing:
  assumes "Apis_Get k (getQualifiedName_v1 ingress) = ((Some a, Some code, None), k1)"
    and "code \<noteq> 404"
  shows "reconcileAPI_v1 k ingress = patchDrift_v1 a ingress (getQualifiedName_v1 ingress) k1"
  using assms by (simp add: reconcileAPI_v1_def Let_def)

lemma getUpstreamURL_desired: "getUpstreamURL path ns = desiredURL (Backend path) ns"
  by (simp add: getUpstreamURL_def desiredURL_def Let_def)

lemma validated_v1_shape:
  assumes "validateIngressSupported_v1 ingress = Nil"
  obtains r h p where "Rules (Spec ingress) = [r]" "HTTP r = Some h" "Paths h = [p]" "Path p = ''/''"
proof -
  from assms have len: "length (Rules (Spec ingress)) = 1"
    by (simp add: validateIngressSupported_v1_def split: if_splits)
  then obtain r where r: "Rules (Spec ingress) = [r]"
    by (cases "Rules (Spec ingress)") auto
  from assms r obtain h where h: "HTTP r = Some h"
    by (cases "HTTP r") (auto simp: validateIngressSupported_v1_def split: if_splits)
  from assms r h have "length (Paths h) = 1 \<and> Path (Paths h ! 0) = ''/''"
    by (simp add: validateIngressSupported_v1_def split: if_splits)
  then obtain p where "Paths h = [p]" "Path p = ''/''"
    by (cases "Paths h") auto
  with r h show ?thesis using that by blast
qed

text \<open>
  C5. Reconcile is a no-op on a converged record. In the composite form
  (controller.go, lines 226-298): if the GET returns an existing record whose upstream URL
  is the desired URL of the path's backend, whose hosts are the one-element list of the
  rule's host, whose \<^verbatim>\<open>preserveHost\<close> is true, whose \<^verbatim>\<open>stripURI\<close> is false and whose
  uris are the one-element list of the path, then \<^verbatim>\<open>reconcileAPI\<close> returns nil having
  issued the GET alone: no POST and no PATCH. In the simple form (part_001), for a
  validated ingress, the same holds of a record with the desired URL, the host of the
  rule and \<^verbatim>\<open>preserveHost\<close> true.
\<close>

theorem reconcileAPI_converged_noop:
  "(Apis_Get k (getQualifiedAPIName (Host rule) (Path path) ns) = ((Some a, Some code, None), k1)
    \<and> code \<noteq> 404
    \<and> aUpstreamURL a = desiredURL (Backend path) ns
    \<and> aHosts a = [Host rule]
    \<and> aPreserveHost a
    \<and> aStripURI a = Some False
    \<and> aUris a = [Path path] \<longrightarrow>
      reconcileAPI k rule path ns = (Nil, k1)
      \<and> issued k k1 = [Get (getQualifiedAPIName (Host rule) (Path path) ns)]
      \<and> apis k1 = apis k)
   \<and> (validateIngressSupported_v1 ingress = Nil
    \<and> Apis_Get k (getQualifiedName_v1 ingress) = ((Some a, Some code, None), k1)
    \<and> code \<noteq> 404
    \<and> aUpstreamURL a
         = desiredURL (Backend (rulePaths (Rules (Spec ingress) ! 0) ! 0)) (Namespace (Meta ingress))
    \<and> aHosts a = [Host (Rules (Spec ingress) ! 0)]
    \<and> aPreserveHost a \<longrightarrow>
      reconcileAPI_v1 k ingress = (Nil, k1)
      \<and> issued k k1 = [Get (getQualifiedName_v1 ingress)]
      \<and> apis k1 = apis k)"
proof (intro conjI impI)
  let ?n = "getQualifiedAPIName (Host rule) (Path path) ns"
  assume h: "Apis_Get k ?n = ((Some a, Some code, None), k1)
    \<and> code \<noteq> 404
    \<and> aUpstreamURL a = desiredURL (Backend path) ns
    \<and> aHosts a = [Host rule]
    \<and> aPreserveHost a
    \<and> aStripURI a = Some False
    \<and> aUris a = [Path path]"
  then have "reconcileAPI k rule path ns = patchDrift a rule path ns ?n k1"
    using reconcileAPI_existing by blast
  also have "\<dots> = (Nil, k1)"
    using h by (simp add: patchDrift_def patchIf_def returnNil_def getUpstreamURL_desired Let_def)
  finally show "reconcileAPI k rule path ns = (Nil, k1)" .
  from h have "k1 = issue (Get ?n) k" using Apis_Get_state [of k ?n] by simp
  then show "issued k k1 = [Get ?n]" "apis k1 = apis k" by simp_all
next
  let ?n = "getQualifiedName_v1 ingress"
  assume h: "validateIngressSupported_v1 ingress = Nil
    \<and> Apis_Get k ?n = ((Some a, Some code, None), k1)
    \<and> code \<noteq> 404
    \<and> aUpstreamURL a
         = desiredURL (Backend (rulePaths (Rules (Spec ingress) ! 0) ! 0)) (Namespace (Meta ingress))
    \<and> aHosts a = [Host (Rules (Spec ingress) ! 0)]
    \<and> aPreserveHost a"
  then obtain r hb p where s: "Rules (Spec ingress) = [r]" "HTTP r = Some hb" "Paths hb = [p]"
    using validated_v1_shape by blast
  from h have "reconcileAPI_v1 k ingress = patchDrift_v1 a ingress ?n k1"
    using reconcileAPI_v1_existing by blast
  also have "\<dots> = (Nil, k1)"
    using h s
    by (simp add: patchDrift_v1_def patchIf_def returnNil_def getUpstreamURL_v1_def
          getIngressBackend_v1_def firstRuleHost_v1_def desiredURL_def rulePaths_def Let_def)
  finally show "reconcileAPI_v1 k ingress = (Nil, k1)" .
  from h have "k1 = issue (Get ?n) k" using Apis_Get_state [of k ?n] by simp
  then show "issued k k1 = [Get ?n]" "apis k1 = apis k" by simp_all
qed


lemma hash_root: "hashString ''/'' = ''300030''"
  by (simp add: hashString_def Checksum_def FormatUint.simps digits_def)

lemma sample_name:
  "getQualifiedAPIName (Host (sampleRule ''bestservice'')) (Path samplePath) ''prod''
     = ''bestservice.somedomain~300030~prod''"
  by (simp add: getQualifiedAPIName_def hash_root sampleRule_def samplePath_def)

lemma sample_url: "desiredURL (Backend samplePath) ''prod'' = ''http://service-1.prod:32000''"
  by (simp add: desiredURL_def samplePath_def Itoa_def FormatUint.simps digits_def)

theorem reconcileAPI_converged_noop_witness:
  "reconcileAPI (gateway [convergedApi (sampleRule ''bestservice'') samplePath ''prod''])
      (sampleRule ''bestservice'') samplePath ''prod''
     = (Nil, \<lparr>apis = [convergedApi (sampleRule ''bestservice'') samplePath ''prod''],
              sent = [Get ''bestservice.somedomain~300030~prod''], faults = (\<lambda>_. None)\<rparr>)
   \<and> reconcileAPI_v1
        (gateway [(apiNamed ''bestservice.prod'')
                    \<lparr>aUpstreamURL := ''http://service-1.prod:32000'',
                     aHosts := [''bestservice.somedomain''], aPreserveHost := True\<rparr>])
        (sampleIngress ''bestservice'' ''prod'')
     = (Nil, \<lparr>apis = [(apiNamed ''bestservice.prod'')
                    \<lparr>aUpstreamURL := ''http://service-1.prod:32000'',
                     aHosts := [''bestservice.somedomain''], aPreserveHost := True\<rparr>],
              sent = [Get ''bestservice.prod''], faults = (\<lambda>_. None)\<rparr>)"
proof -
  let ?a = "convergedApi (sampleRule ''bestservice'') samplePath ''prod''"
  let ?b = "(apiNamed ''bestservice.prod'')
                    \<lparr>aUpstreamURL := ''http://service-1.prod:32000'',
                     aHosts := [''bestservice.somedomain''], aPreserveHost := True\<rparr>"
  let ?n = "''bestservice.somedomain~300030~prod''"
  let ?i = "sampleIngress ''bestservice'' ''prod''"
  have g: "Apis_Get (gateway [?a])
             (getQualifiedAPIName (Host (sampleRule ''bestservice'')) (Path samplePath) ''prod'')
           = ((Some ?a, Some 200, None), issue (Get ?n) (gateway [?a]))"
    by (simp add: sample_name Apis_Get_def fault_now_def gateway_def convergedApi_def)
  have c: "aUpstreamURL ?a = desiredURL (Backend samplePath) ''prod''
      \<and> aHosts ?a = [Host (sampleRule ''bestservice'')] \<and> aPreserveHost ?a
      \<and> aStripURI ?a = Some False \<and> aUris ?a = [Path samplePath]"
    by (simp add: convergedApi_def)
  have ne: "(200::nat) \<noteq> 404" by simp
  have v: "validateIngressSupported_v1 ?i = Nil"
    by (simp add: validateIngressSupported_v1_def sampleIngress_def)
  have n1: "getQualifiedName_v1 ?i = ''bestservice.prod''"
    by (simp add: getQualifiedName_v1_def sampleIngress_def)
  have g1: "Apis_Get (gateway [?b]) (getQualifiedName_v1 ?i)
           = ((Some ?b, Some 200, None), issue (Get ''bestservice.prod'') (gateway [?b]))"
    by (simp add: n1 Apis_Get_def fault_now_def gateway_def apiNamed_def)
  have c1: "aUpstreamURL ?b
         = desiredURL (Backend (rulePaths (Rules (Spec ?i) ! 0) ! 0)) (Namespace (Meta ?i))
      \<and> aHosts ?b = [Host (Rules (Spec ?i) ! 0)] \<and> aPreserveHost ?b"
    by (simp add: sampleIngress_def rulePaths_def desiredURL_def Itoa_def FormatUint.simps
          digits_def)
  from reconcileAPI_converged_noop
         [of "gateway [?a]" "sampleRule ''bestservice''" samplePath "''prod''" ?a 200
             "issue (Get ?n) (gateway [?a])" ?i, THEN conjunct1]
       g c ne
  have r3: "reconcileAPI (gateway [?a]) (sampleRule ''bestservice'') samplePath ''prod''
      = (Nil, issue (Get ?n) (gateway [?a]))"
    by blast
  from reconcileAPI_converged_noop
         [of "gateway [?b]" "sampleRule ''bestservice''" samplePath "''prod''" ?b 200
             "issue (Get ''bestservice.prod'') (gateway [?b])" ?i, THEN conjunct2]
       v g1 c1 ne
  have r1: "reconcileAPI_v1 (gateway [?b]) ?i
      = (Nil, issue (Get ''bestservice.prod'') (gateway [?b]))"
    by blast
  show ?thesis
    unfolding r3 r1 by (simp add: issue_def gateway_def)
qed

section \<open>The drift check on stripURI\<close>

lemma patchIf_cases:
  obtains (go) k' where "patchIf d req nm rest k = rest k'"
      "sent k' = sent k \<or> sent k' = sent k @ [Patch req]"
  | (stop) e k' where
      "patchIf d req nm rest k = (Error (Wrapf e (''Failed to patch API '' @ squote nm)), k')"
      "sent k' = sent k @ [Patch req]"
proof (cases d)
  case False
  then have "patchIf d req nm rest k = rest k" by (simp add: patchIf_def)
  then show ?thesis using go by blast
next
  case True
  obtain x k' where p: "Apis_Patch k req = (x, k')" by (cases "Apis_Patch k req")
  then have s: "sent k' = sent k @ [Patch req]" by (rule Apis_Patch_sent)
  show ?thesis
  proof (cases x)
    case None
    with True p have "patchIf d req nm rest k = rest k'" by (simp add: patchIf_def)
    with s show ?thesis using go by blast
  next
    case (Some e)
    with True p have
      "patchIf d req nm rest k = (Error (Wrapf e (''Failed to patch API '' @ squote nm)), k')"
      by (simp add: patchIf_def)
    with s show ?thesis using stop by blast
  qed
qed

lemma patchIf_extends:
  assumes "\<And>k. \<exists>ys. sent (snd (rest k)) = sent k @ ys"
  shows "\<exists>ys. sent (snd (patchIf d req nm rest k)) = sent k @ ys"
proof (cases rule: patchIf_cases [where d = "d" and req = "req" and nm = "nm" and rest = "rest" and k = "k"])
  case (go k')
  from assms obtain ys where "sent (snd (rest k')) = sent k' @ ys" by blast
  with go show ?thesis by auto
next
  case (stop e k')
  then show ?thesis by simp
qed

lemma returnNil_extends: "\<exists>ys. sent (snd (returnNil k)) = sent k @ ys"
  by (simp add: returnNil_def)

text \<open>The strip stage and what follows it, once the pointer is known to hold true.\<close>

lemma strip_stage:
  assumes "sent k4 = sent k @ xs"
  shows "\<exists>zs. sent (snd (patchIf True sreq nm (patchIf d5 r5 nm returnNil) k4)) = sent k @ zs
           \<and> Patch sreq \<in> set zs"
proof -
  obtain x k' where p: "Apis_Patch k4 sreq = (x, k')" by (cases "Apis_Patch k4 sreq")
  then have s: "sent k' = sent k4 @ [Patch sreq]" by (rule Apis_Patch_sent)
  show ?thesis
  proof (cases x)
    case None
    from patchIf_extends [OF returnNil_extends, of d5 r5 nm k']
    obtain ys where "sent (snd (patchIf d5 r5 nm returnNil k')) = sent k' @ ys" by blast
    with None p s assms show ?thesis by (simp add: patchIf_def)
  next
    case (Some e)
    with p s assms show ?thesis by (simp add: patchIf_def)
  qed
qed

text \<open>
  C3, as amended. In the composite form with the \<^verbatim>\<open>StripURI\<close> field (controller.go,
  lines 226-298), when the GET finds an existing record whose \<^verbatim>\<open>stripURI\<close> is true,
  \<^verbatim>\<open>reconcileAPI\<close> issues a PATCH that carries only the record's id and
  \<^verbatim>\<open>stripURI = false\<close>, unless a PATCH of \<^verbatim>\<open>upstreamURL\<close>, \<^verbatim>\<open>hosts\<close> or
  \<^verbatim>\<open>preserveHost\<close> issued before it failed: then that PATCH is the last request issued
  and \<^verbatim>\<open>reconcileAPI\<close> returns its error.
\<close>

theorem reconcileAPI_stripURI_drift:
  "Apis_Get k (getQualifiedAPIName (Host rule) (Path path) ns) = ((Some a, Some code, None), k1)
   \<and> code \<noteq> 404 \<and> aStripURI a = Some True \<longrightarrow>
     Patch (emptyRequest\<lparr>rID := aID a, rStripURI := Some False\<rparr>)
       \<in> set (issued k (snd (reconcileAPI k rule path ns)))
     \<or> failed (fst (reconcileAPI k rule path ns))
       \<and> last (issued k (snd (reconcileAPI k rule path ns)))
           \<in> {Patch (emptyRequest\<lparr>rID := aID a, rUpstreamURL := desiredURL (Backend path) ns\<rparr>),
               Patch (emptyRequest\<lparr>rID := aID a, rHosts := Host rule\<rparr>),
               Patch (emptyRequest\<lparr>rID := aID a, rPreserveHost := True\<rparr>)}"
proof (intro impI)
  let ?n = "getQualifiedAPIName (Host rule) (Path path) ns"
  let ?r1 = "emptyRequest\<lparr>rID := aID a, rUpstreamURL := desiredURL (Backend path) ns\<rparr>"
  let ?r2 = "emptyRequest\<lparr>rID := aID a, rHosts := Host rule\<rparr>"
  let ?r3 = "emptyRequest\<lparr>rID := aID a, rPreserveHost := True\<rparr>"
  let ?r4 = "emptyRequest\<lparr>rID := aID a, rStripURI := Some False\<rparr>"
  let ?r5 = "emptyRequest\<lparr>rID := aID a, rUris := Path path\<rparr>"
  let ?d1 = "aUpstreamURL a \<noteq> desiredURL (Backend path) ns"
  let ?d2 = "length (aHosts a) \<noteq> 1 \<or> aHosts a ! 0 \<noteq> Host rule"
  let ?d3 = "aPreserveHost a \<noteq> True"
  let ?d5 = "aUris a = [] \<or> aUris a ! 0 \<noteq> Path path"
  let ?F4 = "patchIf True ?r4 ?n (patchIf ?d5 ?r5 ?n returnNil)"
  let ?F3 = "patchIf ?d3 ?r3 ?n ?F4"
  let ?F2 = "patchIf ?d2 ?r2 ?n ?F3"
  let ?res = "reconcileAPI k rule path ns"
  assume h: "Apis_Get k ?n = ((Some a, Some code, None), k1) \<and> code \<noteq> 404
     \<and> aStripURI a = Some True"
  then have k1: "sent k1 = sent k @ [Get ?n]" using Apis_Get_state [of k ?n] by simp
  from h have "?res = patchDrift a rule path ns ?n k1" using reconcileAPI_existing by blast
  also have "\<dots> = patchIf ?d1 ?r1 ?n ?F2 k1"
    using h by (simp add: patchDrift_def Let_def getUpstreamURL_desired)
  finally have res: "?res = patchIf ?d1 ?r1 ?n ?F2 k1" .
  have stopped: "failed (fst ?res) \<and> last (issued k (snd ?res)) = Patch req"
    if "?res = (Error e, k')" "sent k' = sent k @ xs @ [Patch req]" for e k' xs req
    using that by (simp add: issued_def)
  have reached: "Patch ?r4 \<in> set (issued k (snd ?res))"
    if "?res = ?F4 k4" "sent k4 = sent k @ xs" for k4 xs
  proof -
    from strip_stage [OF that(2), of ?r4 ?n ?d5 ?r5]
    obtain zs where "sent (snd (?F4 k4)) = sent k @ zs" "Patch ?r4 \<in> set zs" by blast
    with that(1) show ?thesis by (simp add: issued_def)
  qed
  show "Patch ?r4 \<in> set (issued k (snd ?res))
     \<or> failed (fst ?res) \<and> last (issued k (snd ?res)) \<in> {Patch ?r1, Patch ?r2, Patch ?r3}"
  proof (cases rule: patchIf_cases [where d = "?d1" and req = "?r1" and nm = "?n" and rest = "?F2" and k = "k1"])
    case (stop e k')
    with res k1 stopped [of _ k' "[Get ?n]" ?r1] show ?thesis by simp
  next
    case (go k2)
    then obtain xs2 where k2: "sent k2 = sent k @ xs2" using k1 by auto
    show ?thesis
    proof (cases rule: patchIf_cases [where d = "?d2" and req = "?r2" and nm = "?n" and rest = "?F3" and k = "k2"])
      case (stop e k')
      with res go k2 stopped [of _ k' xs2 ?r2] show ?thesis by simp
    next
      case go3: (go k3)
      then obtain xs3 where k3: "sent k3 = sent k @ xs3" using k2 by auto
      show ?thesis
      proof (cases rule: patchIf_cases [where d = "?d3" and req = "?r3" and nm = "?n" and rest = "?F4" and k = "k3"])
        case (stop e k')
        with res go go3 k3 stopped [of _ k' xs3 ?r3] show ?thesis by simp
      next
        case go4: (go k4)
        then obtain xs4 where k4: "sent k4 = sent k @ xs4" using k3 by auto
        from res go go3 go4 have "?res = ?F4 k4" by simp
        from reached [OF this k4] show ?thesis by simp
      qed
    qed
  qed
qed


lemmas sample_defs =
  sampleRule_def samplePath_def convergedApi_def getQualifiedAPIName_def hash_root
  desiredURL_def Itoa_def FormatUint.simps digits_def squote_def

lemmas run_defs =
  reconcileAPI_def patchDrift_def patchIf_def returnNil_def getUpstreamURL_def
  apiRequestFromIngress_def Apis_Get_def Apis_Patch_def Apis_Post_def fault_now_def
  issue_def gateway_def emptyRequest_def patched_def created_def Let_def

theorem reconcileAPI_stripURI_drift_witness:
  "reconcileAPI
     (gateway [(convergedApi (sampleRule ''bestservice'') samplePath ''prod'')
                 \<lparr>aStripURI := Some True\<rparr>])
     (sampleRule ''bestservice'') samplePath ''prod''
   = (Nil,
      \<lparr>apis = [convergedApi (sampleRule ''bestservice'') samplePath ''prod''],
       sent = [Get ''bestservice.somedomain~300030~prod'',
               Patch (emptyRequest\<lparr>rID := ''bestservice.somedomain~300030~prod'',
                                     rStripURI := Some False\<rparr>)],
       faults = (\<lambda>_. None)\<rparr>)"
proof -
  let ?a = "(convergedApi (sampleRule ''bestservice'') samplePath ''prod'')
                 \<lparr>aStripURI := Some True\<rparr>"
  let ?k = "gateway [?a]"
  let ?n = "''bestservice.somedomain~300030~prod''"
  have g: "Apis_Get ?k
             (getQualifiedAPIName (Host (sampleRule ''bestservice'')) (Path samplePath) ''prod'')
           = ((Some ?a, Some 200, None), issue (Get ?n) ?k)"
    by (simp add: sample_name Apis_Get_def fault_now_def gateway_def convergedApi_def)
  have ne: "(200::nat) \<noteq> 404" by simp
  have s: "aStripURI ?a = Some True" by simp
  have ok: "\<not> failed (fst (reconcileAPI ?k (sampleRule ''bestservice'') samplePath ''prod''))"
    by (simp add: run_defs sample_defs)
  from reconcileAPI_stripURI_drift
         [of ?k "sampleRule ''bestservice''" samplePath "''prod''" ?a 200 "issue (Get ?n) ?k"]
       g ne s ok
  have "Patch (emptyRequest\<lparr>rID := aID ?a, rStripURI := Some False\<rparr>)
       \<in> set (issued ?k (snd (reconcileAPI ?k (sampleRule ''bestservice'') samplePath ''prod'')))"
    by blast
  then show ?thesis
    by (simp add: run_defs sample_defs)
qed

text \<open>
  The claim as first stated has the check performed on every reconcile of an existing
  record. Here the record has \<^verbatim>\<open>stripURI\<close> true and a stale upstream URL, and the gateway
  fails the second request: \<^verbatim>\<open>reconcileAPI\<close> returns the error of the upstream PATCH and
  issues nothing after it.
\<close>

theorem reconcileAPI_stripURI_skipped_counterexample:
  "aStripURI ((convergedApi (sampleRule ''bestservice'') samplePath ''prod'')
                \<lparr>aUpstreamURL := ''http://service-0.prod:32000'', aStripURI := Some True\<rparr>)
     = Some True
   \<and> reconcileAPI
       \<lparr>apis = [(convergedApi (sampleRule ''bestservice'') samplePath ''prod'')
                  \<lparr>aUpstreamURL := ''http://service-0.prod:32000'', aStripURI := Some True\<rparr>],
        sent = [], faults = failAt 1\<rparr>
       (sampleRule ''bestservice'') samplePath ''prod''
     = (Error (Wrapf (HTTPStatus 500)
                 (''Failed to patch API '' @ squote ''bestservice.somedomain~300030~prod'')),
        \<lparr>apis = [(convergedApi (sampleRule ''bestservice'') samplePath ''prod'')
                  \<lparr>aUpstreamURL := ''http://service-0.prod:32000'', aStripURI := Some True\<rparr>],
         sent = [Get ''bestservice.somedomain~300030~prod'',
                 Patch (emptyRequest\<lparr>rID := ''bestservice.somedomain~300030~prod'',
                                       rUpstreamURL := ''http://service-1.prod:32000''\<rparr>)],
         faults = failAt 1\<rparr>)"
  by (simp add: run_defs sample_defs failAt_def)

text \<open>
  The earlier composite revision (controller.go, lines 546-607) compares no
  \<^verbatim>\<open>StripURI\<close>: a record that agrees on the other four fields is left alone whatever
  the pointer holds.
\<close>

lemma reconcileAPI_v2_ignores_StripURI:
  assumes "Apis_Get k (getQualifiedAPIName (Host rule) (Path path) ns)
             = ((Some a, Some code, None), k1)" and "code \<noteq> 404"
    and "getUpstreamURL_v2 rule ns = Some (aUpstreamURL a)" and "aHosts a = [Host rule]"
    and "aPreserveHost a" and "aUris a = [Path path]"
  shows "reconcileAPI_v2 k rule path ns = (Nil, k1)"
  using assms
  by (simp add: reconcileAPI_v2_def patchDrift_v2_def patchIf_def returnNil_def Let_def)

section \<open>A record without stripURI\<close>

lemma reconcileAPI_nil_StripURI:
  assumes "Apis_Get k (getQualifiedAPIName (Host rule) (Path path) ns)
             = ((Some a, Some code, None), k1)" and "code \<noteq> 404"
    and "aUpstreamURL a = desiredURL (Backend path) ns" and "aHosts a = [Host rule]"
    and "aPreserveHost a" and "aStripURI a = None"
  shows "reconcileAPI k rule path ns = (Panic, k1)"
  using assms reconcileAPI_existing [OF assms(1,2)]
  by (simp add: patchDrift_def patchIf_def getUpstreamURL_desired Let_def)

text \<open>
  C10. The claim is that \<^verbatim>\<open>reconcileAPI\<close> is defined on every GET response for an
  existing record, also when the \<^verbatim>\<open>stripURI\<close> field of the record is absent. The code
  dereferences the pointer unguarded (controller.go, line 274), while the next check
  guards \<^verbatim>\<open>api.Uris\<close> against nil. On a record that satisfies the other checks and
  carries no \<^verbatim>\<open>stripURI\<close> the function panics.
\<close>

theorem reconcileAPI_nil_StripURI_panics:
  "reconcileAPI
     (gateway [(convergedApi (sampleRule ''bestservice'') samplePath ''prod'')
                 \<lparr>aStripURI := None\<rparr>])
     (sampleRule ''bestservice'') samplePath ''prod''
   = (Panic,
      \<lparr>apis = [(convergedApi (sampleRule ''bestservice'') samplePath ''prod'')
                 \<lparr>aStripURI := None\<rparr>],
       sent = [Get ''bestservice.somedomain~300030~prod''], faults = (\<lambda>_. None)\<rparr>)"
  by (simp add: run_defs sample_defs)


section \<open>The desired upstream URL\<close>

text \<open>
  The revision of controller.go at lines 1-382 projects the URL of the backend of the
  path it reconciles; the simple form does so for a validated ingress, whose only path
  is the first path of its first rule. The revision of controller.go at lines 383-693
  takes the backend of the first path of the rule, whichever path it reconciles.
\<close>

lemma apiRequestFromIngress_url:
  "rUpstreamURL (apiRequestFromIngress rule path ns) = desiredURL (Backend path) ns"
  by (simp add: apiRequestFromIngress_def getUpstreamURL_desired Let_def)

lemma getUpstreamURL_v1_validated:
  assumes "validateIngressSupported_v1 ingress = Nil"
  shows "getUpstreamURL_v1 ingress
    = Some (desiredURL (Backend (rulePaths (Rules (Spec ingress) ! 0) ! 0)) (Namespace (Meta ingress)))"
proof -
  from assms obtain r h p where "Rules (Spec ingress) = [r]" "HTTP r = Some h" "Paths h = [p]"
    using validated_v1_shape by blast
  then show ?thesis
    by (simp add: getUpstreamURL_v1_def getIngressBackend_v1_def desiredURL_def rulePaths_def)
qed

lemma getUpstreamURL_v2_first_path:
  assumes "rulePaths rule = p # ps"
  shows "getUpstreamURL_v2 rule ns = Some (desiredURL (Backend p) ns)"
  using assms
  by (auto simp: getUpstreamURL_v2_def getIngressRuleBackend_def desiredURL_def rulePaths_def
        split: option.splits)

lemma hash_b: "hashString ''/b'' = ''c20092''"
  by (simp add: hashString_def Checksum_def FormatUint.simps digits_def)

text \<open>
  C2. The claim is that the desired upstream URL of a (rule, path) pair is computed from
  the backend of that path. In the revision of controller.go at lines 383-693,
  \<^verbatim>\<open>getUpstreamURL\<close> takes the rule and \<^verbatim>\<open>getIngressRuleBackend\<close> returns
  \<^verbatim>\<open>Paths[0].Backend\<close>. For the eligible, validated ingress below, reconciling the
  second path against an empty gateway creates an API for \<^verbatim>\<open>/b\<close> whose upstream is the
  service of \<^verbatim>\<open>/a\<close>; the revision at lines 1-382 computes the URL of \<^verbatim>\<open>service-b\<close>.
\<close>

theorem getUpstreamURL_v2_other_path:
  "ingressIsFairGame twoPathIngress
   \<and> validateIngressSupported twoPathIngress = Nil
   \<and> Rules (Spec twoPathIngress) = [twoPathRule]
   \<and> rulePaths twoPathRule = [pathA, pathB]
   \<and> desiredURL (Backend pathB) ''prod'' = ''http://service-b.prod:80''
   \<and> getUpstreamURL pathB ''prod'' = ''http://service-b.prod:80''
   \<and> getUpstreamURL_v2 twoPathRule ''prod'' = Some ''http://service-a.prod:80''
   \<and> reconcileAPI_v2 (gateway []) twoPathRule pathB ''prod''
     = (Nil,
        \<lparr>apis = [\<lparr>aID = ''bestservice.somedomain~c20092~prod'',
                  aName = ''bestservice.somedomain~c20092~prod'',
                  aUpstreamURL = ''http://service-a.prod:80'',
                  aHosts = [''bestservice.somedomain''], aUris = [''/b''],
                  aPreserveHost = True, aStripURI = None\<rparr>],
         sent = [Get ''bestservice.somedomain~c20092~prod'',
                 Post (emptyRequest\<lparr>rUpstreamURL := ''http://service-a.prod:80'',
                         rName := ''bestservice.somedomain~c20092~prod'',
                         rHosts := ''bestservice.somedomain'', rUris := ''/b'',
                         rPreserveHost := True\<rparr>)],
         faults = (\<lambda>_. None)\<rparr>)"
  by (simp add: twoPathIngress_def twoPathRule_def pathA_def pathB_def ingressIsFairGame_def
        lookup2_def validateIngressSupported_def rulePaths_def desiredURL_def getUpstreamURL_def
        getUpstreamURL_v2_def getIngressRuleBackend_def Itoa_def FormatUint.simps digits_def
        reconcileAPI_v2_def apiRequestFromIngress_v2_def getQualifiedAPIName_def hash_b
        Apis_Get_def Apis_Post_def fault_now_def issue_def gateway_def emptyRequest_def
        created_def Let_def)

section \<open>The reaper and orphaned APIs\<close>

lemma addPaths_iff:
  "addPaths m host ns ps n \<longleftrightarrow>
     m n \<or> n \<in> set (map (\<lambda>p. getQualifiedAPIName host (Path p) ns) ps)"
  by (induction ps arbitrary: m) auto

lemma addRules_iff:
  "addRules m ns rs = Some m' \<Longrightarrow>
     m' n \<longleftrightarrow>
       m n \<or> n \<in> set (concat (map (\<lambda>r. map (\<lambda>p. getQualifiedAPIName (Host r) (Path p) ns)
                                             (rulePaths r)) rs))"
proof (induction rs arbitrary: m)
  case Nil
  then show ?case by simp
next
  case (Cons r rs)
  from Cons.prems obtain h where h: "HTTP r = Some h"
    and rest: "addRules (addPaths m (Host r) ns (Paths h)) ns rs = Some m'"
    by (cases "HTTP r") auto
  from Cons.IH [OF rest] h show ?case
    by (auto simp: addPaths_iff rulePaths_def)
qed

lemma addIngresses_iff:
  "addIngresses m items = Some m' \<Longrightarrow> m' n \<longleftrightarrow> m n \<or> n \<in> expectedNames items"
proof (induction items arbitrary: m)
  case Nil
  then show ?case by (simp add: expectedNames_def)
next
  case (Cons i items)
  show ?case
  proof (cases "ingressIsFairGame i")
    case False
    with Cons.prems have "addIngresses m items = Some m'" by simp
    from Cons.IH [OF this] False show ?thesis by (simp add: expectedNames_def)
  next
    case True
    with Cons.prems obtain m1 where
      m1: "addRules m (Namespace (Meta i)) (Rules (Spec i)) = Some m1"
      and rest: "addIngresses m1 items = Some m'"
      by (cases "addRules m (Namespace (Meta i)) (Rules (Spec i))") auto
    from addRules_iff [OF m1, of n] Cons.IH [OF rest] True show ?thesis
      by (auto simp: expectedNames_def pairNames_def)
  qed
qed

lemma addIngresses_v1_iff:
  "addIngresses_v1 m items n \<longleftrightarrow> m n \<or> n \<in> getQualifiedName_v1 ` set items"
  by (induction items arbitrary: m) auto

lemma deleteKongAPI_success:
  assumes "deleteKongAPI k name = (None, k')"
  shows "apis k' = filter (\<lambda>a. aName a \<noteq> name) (apis k)"
  using assms
  by (auto simp: deleteKongAPI_def Apis_Get_def Apis_Delete_def
        split: option.splits if_splits prod.splits)

lemma reapLoop_all_deleted:
  "reapLoop k m as = (k', []) \<Longrightarrow>
     apis k' = filter (\<lambda>a. m (aName a) \<or> aName a \<notin> aName ` set as) (apis k)"
proof (induction as arbitrary: k)
  case Nil
  then show ?case by simp
next
  case (Cons x as)
  show ?case
  proof (cases "m (aName x)")
    case True
    with Cons.prems have "reapLoop k m as = (k', [])" by simp
    from Cons.IH [OF this] have "apis k' = filter (\<lambda>a. m (aName a) \<or> aName a \<notin> aName ` set as) (apis k)" .
    also have "\<dots> = filter (\<lambda>a. m (aName a) \<or> aName a \<notin> aName ` set (x # as)) (apis k)"
      using True by (intro filter_cong) auto
    finally show ?thesis .
  next
    case False
    obtain r k1 where d: "deleteKongAPI k (aName x) = (r, k1)" by (cases "deleteKongAPI k (aName x)")
    with False Cons.prems have r: "r = None" and rest: "reapLoop k1 m as = (k', [])"
      by (auto split: option.splits prod.splits)
    from d r have k1: "apis k1 = filter (\<lambda>a. aName a \<noteq> aName x) (apis k)"
      using deleteKongAPI_success by simp
    from Cons.IH [OF rest] have "apis k' = filter (\<lambda>a. m (aName a) \<or> aName a \<notin> aName ` set as) (apis k1)" .
    also have "\<dots> = filter (\<lambda>a. m (aName a) \<or> aName a \<notin> aName ` set (x # as)) (apis k)"
      unfolding k1 filter_filter using False by (intro filter_cong) auto
    finally show ?thesis .
  qed
qed

lemma reap_all_listed:
  assumes "reapLoop k m (apis k) = (k', [])"
  shows "apis k' = filter (\<lambda>a. m (aName a)) (apis k)"
proof -
  from reapLoop_all_deleted [OF assms]
  have "apis k' = filter (\<lambda>a. m (aName a) \<or> aName a \<notin> aName ` set (apis k)) (apis k)" .
  also have "\<dots> = filter (\<lambda>a. m (aName a)) (apis k)"
    by (intro filter_cong) auto
  finally show ?thesis .
qed

text \<open>
  C1, as amended. After a reaper cycle that completed (returned nil) and logged no failed
  delete, the gateway holds exactly the records it held before whose name is protected.
  In the composite form a name is protected (is in \<^verbatim>\<open>ingMap\<close>) if and only if it is the
  qualified name of some (rule, path) pair of some eligible ingress of the listed
  snapshot. In the simple form (part_001) there is no eligibility filter: a name is
  protected if and only if it is the qualified name of some ingress of the listed
  snapshot.
\<close>

theorem reapOrphanedApis_deletes_orphans:
  "(reapOrphanedApis k (Inr items) = (Nil, k', []) \<longrightarrow>
      apis k' = filter (\<lambda>a. aName a \<in> expectedNames items) (apis k)
      \<and> (\<forall>a \<in> set (apis k'). aName a \<in> expectedNames items))
   \<and> (addIngresses (\<lambda>_. False) items = Some ingMap \<longrightarrow>
      (\<forall>n. ingMap n \<longleftrightarrow> n \<in> expectedNames items))
   \<and> (reapOrphanedApis_v1 k (Inr items) = (Nil, k', []) \<longrightarrow>
      apis k' = filter (\<lambda>a. aName a \<in> getQualifiedName_v1 ` set items) (apis k)
      \<and> (\<forall>a \<in> set (apis k'). aName a \<in> getQualifiedName_v1 ` set items))
   \<and> (\<forall>n. addIngresses_v1 (\<lambda>_. False) items n \<longleftrightarrow> n \<in> getQualifiedName_v1 ` set items)"
proof (intro conjI impI)
  assume h: "reapOrphanedApis k (Inr items) = (Nil, k', [])"
  then obtain m where m: "addIngresses (\<lambda>_. False) items = Some m"
    and fault: "fault_now k = None"
    and loop: "reapLoop (issue GetAll k) m (apis k) = (k', [])"
    by (auto simp: reapOrphanedApis_def Apis_GetAll_def split: option.splits prod.splits)
  from loop have "reapLoop (issue GetAll k) m (apis (issue GetAll k)) = (k', [])" by simp
  from reap_all_listed [OF this]
  have "apis k' = filter (\<lambda>a. m (aName a)) (apis k)" by simp
  also have "\<dots> = filter (\<lambda>a. aName a \<in> expectedNames items) (apis k)"
    using addIngresses_iff [OF m] by simp
  finally show e: "apis k' = filter (\<lambda>a. aName a \<in> expectedNames items) (apis k)" .
  show "\<forall>a \<in> set (apis k'). aName a \<in> expectedNames items" unfolding e by simp
next
  assume "addIngresses (\<lambda>_. False) items = Some ingMap"
  from addIngresses_iff [OF this] show "\<forall>n. ingMap n \<longleftrightarrow> n \<in> expectedNames items" by simp
next
  assume h: "reapOrphanedApis_v1 k (Inr items) = (Nil, k', [])"
  then have loop: "reapLoop (issue GetAll k) (addIngresses_v1 (\<lambda>_. False) items) (apis k) = (k', [])"
    by (auto simp: reapOrphanedApis_v1_def Apis_GetAll_def split: option.splits prod.splits)
  then have "reapLoop (issue GetAll k) (addIngresses_v1 (\<lambda>_. False) items) (apis (issue GetAll k))
      = (k', [])" by simp
  from reap_all_listed [OF this]
  show e: "apis k' = filter (\<lambda>a. aName a \<in> getQualifiedName_v1 ` set items) (apis k)"
    by (simp add: addIngresses_v1_iff)
  show "\<forall>a \<in> set (apis k'). aName a \<in> getQualifiedName_v1 ` set items" unfolding e by simp
next
  show "\<forall>n. addIngresses_v1 (\<lambda>_. False) items n \<longleftrightarrow> n \<in> getQualifiedName_v1 ` set items"
    by (simp add: addIngresses_v1_iff)
qed


lemmas reap_defs =
  reapOrphanedApis_def reapOrphanedApis_v1_def Apis_GetAll_def deleteKongAPI_def Apis_Get_def
  Apis_Delete_def fault_now_def issue_def gateway_def apiNamed_def ingressIsFairGame_def
  lookup2_def ingressClassAnnotationName_def kongIngressControllerClass_def
  getQualifiedName_v1_def sampleIngress_def nginxIngress_def

theorem reapOrphanedApis_deletes_orphans_witness:
  "reapOrphanedApis
     (gateway [apiNamed ''orphanedAPI1'',
               convergedApi (sampleRule ''bestservice'') samplePath ''prod''])
     (Inr [sampleIngress ''bestservice'' ''prod''])
   = (Nil,
      \<lparr>apis = [convergedApi (sampleRule ''bestservice'') samplePath ''prod''],
       sent = [GetAll, Get ''orphanedAPI1'', Delete ''orphanedAPI1''],
       faults = (\<lambda>_. None)\<rparr>, [])
   \<and> aName (convergedApi (sampleRule ''bestservice'') samplePath ''prod'')
       \<in> expectedNames [sampleIngress ''bestservice'' ''prod'']
   \<and> reapOrphanedApis_v1 (gateway [apiNamed ''orphanedAPI1'', apiNamed ''bestservice.prod''])
       (Inr [sampleIngress ''bestservice'' ''prod''])
   = (Nil,
      \<lparr>apis = [apiNamed ''bestservice.prod''],
       sent = [GetAll, Get ''orphanedAPI1'', Delete ''orphanedAPI1''],
       faults = (\<lambda>_. None)\<rparr>, [])
   \<and> aName (apiNamed ''bestservice.prod'')
       \<in> getQualifiedName_v1 ` set [sampleIngress ''bestservice'' ''prod'']"
proof -
  let ?c = "convergedApi (sampleRule ''bestservice'') samplePath ''prod''"
  let ?k = "gateway [apiNamed ''orphanedAPI1'', ?c]"
  let ?k' = "\<lparr>apis = [?c], sent = [GetAll, Get ''orphanedAPI1'', Delete ''orphanedAPI1''],
              faults = (\<lambda>_. None)\<rparr>"
  let ?b = "apiNamed ''bestservice.prod''"
  let ?j = "gateway [apiNamed ''orphanedAPI1'', ?b]"
  let ?j' = "\<lparr>apis = [?b], sent = [GetAll, Get ''orphanedAPI1'', Delete ''orphanedAPI1''],
              faults = (\<lambda>_. None)\<rparr>"
  let ?items = "[sampleIngress ''bestservice'' ''prod'']"
  have e: "reapOrphanedApis ?k (Inr ?items) = (Nil, ?k', [])"
    by (simp add: reap_defs convergedApi_def sampleRule_def samplePath_def
          getQualifiedAPIName_def hash_root)
  have e1: "reapOrphanedApis_v1 ?j (Inr ?items) = (Nil, ?j', [])"
    by (simp add: reap_defs)
  from reapOrphanedApis_deletes_orphans [of ?k ?items ?k', THEN conjunct1] e
  have "\<forall>a \<in> set (apis ?k'). aName a \<in> expectedNames ?items" by blast
  then have n: "aName ?c \<in> expectedNames ?items" by simp
  from reapOrphanedApis_deletes_orphans
         [of ?j ?items ?j', THEN conjunct2, THEN conjunct2, THEN conjunct1] e1
  have "\<forall>a \<in> set (apis ?j'). aName a \<in> getQualifiedName_v1 ` set ?items" by blast
  then have n1: "aName ?b \<in> getQualifiedName_v1 ` set ?items" by simp
  from e e1 n n1 show ?thesis by blast
qed

text \<open>
  The claim as first stated protects the names of eligible ingresses only. The simple
  form never reads the class annotation: an ingress of class \<^verbatim>\<open>nginx\<close> protects the
  API that bears its name, and the reaper issues no delete.
\<close>

theorem reapOrphanedApis_v1_keeps_ineligible_counterexample:
  "\<not> ingressIsFairGame (nginxIngress ''bestservice'' ''prod'')
   \<and> expectedNames [nginxIngress ''bestservice'' ''prod''] = {}
   \<and> reapOrphanedApis_v1 (gateway [apiNamed ''bestservice.prod''])
       (Inr [nginxIngress ''bestservice'' ''prod''])
     = (Nil,
        \<lparr>apis = [apiNamed ''bestservice.prod''], sent = [GetAll], faults = (\<lambda>_. None)\<rparr>, [])"
  by (simp add: reap_defs expectedNames_def)

end
